theory Spec2Isabelle
  imports Main "HOL-Library.Sublist" "HOL-Library.AList"
begin

section \<open>JavaScript strings\<close>

text \<open>
  The log tool of \<^verbatim>\<open>src/tools/kubectl-logs.ts\<close> is embedded function by function:
  \<^verbatim>\<open>kubectlLogs\<close>, \<^verbatim>\<open>addLogOptions\<close>, \<^verbatim>\<open>getLabelSelectorLogs\<close>, \<^verbatim>\<open>formatLogOutput\<close>
  and \<^verbatim>\<open>handleCommandError\<close>, with the library calls they make.
  A JavaScript string is a \<open>string\<close>: a list of 8-bit characters, read as the code units
  U+0000 to U+00FF. The string methods the tool calls are written out below.
\<close>

definition str_includes :: "string \<Rightarrow> string \<Rightarrow> bool" where
  \<comment> \<open>\<^verbatim>\<open>s.includes(needle)\<close>\<close>
  "str_includes s needle = sublist needle s"

definition is_white_space :: "char \<Rightarrow> bool" where
  \<comment> \<open>WhiteSpace and LineTerminator below U+0100: TAB, LF, VT, FF, CR, SP, NBSP\<close>
  "is_white_space c =
     (c \<in> set [CHR 0x09, CHR 0x0A, CHR 0x0B, CHR 0x0C, CHR 0x0D, CHR 0x20, CHR 0xA0])"

definition trim :: "string \<Rightarrow> string" where
  \<comment> \<open>\<^verbatim>\<open>s.trim()\<close>\<close>
  "trim s = rev (dropWhile is_white_space (rev (dropWhile is_white_space s)))"

fun split_str :: "char \<Rightarrow> string \<Rightarrow> string list" where
  \<comment> \<open>\<^verbatim>\<open>s.split(sep)\<close> for a separator of one character; the result is never empty\<close>
  "split_str sep [] = [[]]"
| "split_str sep (c # cs) =
     (if c = sep then [] # split_str sep cs
      else (case split_str sep cs of
              [] \<Rightarrow> [[c]]
            | w # ws \<Rightarrow> (c # w) # ws))"

fun join_str :: "string \<Rightarrow> string list \<Rightarrow> string" where
  \<comment> \<open>\<^verbatim>\<open>xs.join(sep)\<close> on an array of strings\<close>
  "join_str sep [] = []"
| "join_str sep [x] = x"
| "join_str sep (x # y # ys) = x @ sep @ join_str sep (y # ys)"

definition replace_quotes :: "string \<Rightarrow> string" where
  \<comment> \<open>\<^verbatim>\<open>s.replace(/'/g, '"')\<close>\<close>
  "replace_quotes s = map (\<lambda>c. if c = CHR 0x27 then CHR 0x22 else c) s"

definition lower_char :: "char \<Rightarrow> char" where
  "lower_char c =
     (let n = (of_char c :: nat)
      in if (65 \<le> n \<and> n \<le> 90) \<or> (192 \<le> n \<and> n \<le> 222 \<and> n \<noteq> 215)
         then char_of (n + 32) else c)"

definition toLowerCase :: "string \<Rightarrow> string" where
  "toLowerCase s = map lower_char s"

definition digit_char :: "nat \<Rightarrow> char" where
  "digit_char d = ''0123456789'' ! (d mod 10)"

fun show_nat :: "nat \<Rightarrow> string" where
  "show_nat n = (if n < 10 then [digit_char n] else show_nat (n div 10) @ [digit_char n])"

declare show_nat.simps [simp del]

definition show_int :: "int \<Rightarrow> string" where
  \<comment> \<open>a template literal's rendering of an integral number\<close>
  "show_int i = (if i < 0 then CHR ''-'' # show_nat (nat (- i)) else show_nat (nat i))"

definition truthy :: "string option \<Rightarrow> bool" where
  \<comment> \<open>\<^verbatim>\<open>if (x)\<close> on an optional string: undefined and the empty string are falsy\<close>
  "truthy x = (case x of None \<Rightarrow> False | Some s \<Rightarrow> s \<noteq> [])"

section \<open>JavaScript values and plain objects\<close>

text \<open>
  A number is kept as the text \<^verbatim>\<open>String(n)\<close> renders (the tool only ever prints one).
  An object is the list of its own enumerable properties in the order \<^verbatim>\<open>Object.entries\<close>
  and \<^verbatim>\<open>JSON.stringify\<close> enumerate them: array indices first, ascending, then
  the other keys in creation order.
\<close>

datatype jsval =
    JUndefined
  | JNull
  | JBool bool
  | JNum string
  | JStr string
  | JArr "jsval list"
  | JObj "(string \<times> jsval) list"

type_synonym props = "(string \<times> jsval) list"

record js_error =
  status :: "int option"
  message :: string

definition digits_value :: "string \<Rightarrow> int" where
  "digits_value k = foldl (\<lambda>a c. 10 * a + (of_char c - 48)) 0 k"

definition array_index :: "string \<Rightarrow> int option" where
  \<comment> \<open>a canonical numeric string below \<open>2^32 - 1\<close> is an array index\<close>
  "array_index k =
     (if k \<noteq> [] \<and> list_all (\<lambda>c. c \<in> set ''0123456789'') k
         \<and> (k = ''0'' \<or> take 1 k \<noteq> ''0'') \<and> digits_value k < 4294967295
      then Some (digits_value k) else None)"

fun ins_index :: "int \<Rightarrow> string \<Rightarrow> jsval \<Rightarrow> props \<Rightarrow> props" where
  "ins_index n k v [] = [(k, v)]"
| "ins_index n k v ((k', v') # rest) =
     (case array_index k' of
        None \<Rightarrow> (k, v) # (k', v') # rest
      | Some m \<Rightarrow> if m < n then (k', v') # ins_index n k v rest
                  else (k, v) # (k', v') # rest)"

definition js_set :: "props \<Rightarrow> string \<Rightarrow> jsval \<Rightarrow> props" where
  \<comment> \<open>\<^verbatim>\<open>obj[k] = v\<close> on a plain object: the key \<^verbatim>\<open>__proto__\<close> reaches the
     prototype setter and creates no own property\<close>
  "js_set obj k v =
     (if k = ''__proto__'' then obj
      else if k \<in> fst ` set obj then AList.update k v obj
      else (case array_index k of
              None \<Rightarrow> obj @ [(k, v)]
            | Some n \<Rightarrow> ins_index n k v obj))"

fun get_prop :: "jsval \<Rightarrow> string \<Rightarrow> jsval" where
  \<comment> \<open>\<^verbatim>\<open>v.k\<close> for a key that no prototype defines\<close>
  "get_prop (JObj kvs) k = (case map_of kvs k of None \<Rightarrow> JUndefined | Some v \<Rightarrow> v)"
| "get_prop v k = JUndefined"

primrec JSON_stringify :: "jsval \<Rightarrow> jsval" where
  \<comment> \<open>the JSON document, as the value it denotes: a property holding undefined is
     dropped, an undefined array element becomes null\<close>
  "JSON_stringify JUndefined = JUndefined"
| "JSON_stringify JNull = JNull"
| "JSON_stringify (JBool b) = JBool b"
| "JSON_stringify (JNum n) = JNum n"
| "JSON_stringify (JStr s) = JStr s"
| "JSON_stringify (JArr xs) =
     JArr (map (\<lambda>x. if x = JUndefined then JNull else x) (map JSON_stringify xs))"
| "JSON_stringify (JObj kvs) =
     JObj (filter (\<lambda>kv. snd kv \<noteq> JUndefined) (map (map_prod id JSON_stringify) kvs))"

definition type_error :: "string \<Rightarrow> js_error" where
  "type_error msg = \<lparr>status = None, message = msg\<rparr>"

fun js_to_string :: "jsval \<Rightarrow> js_error + string"
  and elems_to_string :: "jsval list \<Rightarrow> js_error + string list" where
  \<comment> \<open>the conversion a template literal applies to \<^verbatim>\<open>${value}\<close>\<close>
  "js_to_string JUndefined = Inr ''undefined''"
| "js_to_string JNull = Inr ''null''"
| "js_to_string (JBool b) = Inr (if b then ''true'' else ''false'')"
| "js_to_string (JNum n) = Inr n"
| "js_to_string (JStr s) = Inr s"
| "js_to_string (JArr xs) =
     (case elems_to_string xs of Inl err \<Rightarrow> Inl err | Inr ss \<Rightarrow> Inr (join_str '','' ss))"
| "js_to_string (JObj kvs) =
     (if ''toString'' \<in> fst ` set kvs
      then Inl (type_error ''Cannot convert object to primitive value'')
      else Inr ''[object Object]'')"
| "elems_to_string [] = Inr []"
| "elems_to_string (x # xs) =
     (case (if x = JNull \<or> x = JUndefined then Inr [] else js_to_string x) of
        Inl err \<Rightarrow> Inl err
      | Inr s \<Rightarrow> (case elems_to_string xs of Inl err \<Rightarrow> Inl err | Inr ss \<Rightarrow> Inr (s # ss)))"

fun object_entries :: "jsval \<Rightarrow> js_error + props" where
  \<comment> \<open>\<^verbatim>\<open>Object.entries(v)\<close>\<close>
  "object_entries JUndefined = Inl (type_error ''Cannot convert undefined or null to object'')"
| "object_entries JNull = Inl (type_error ''Cannot convert undefined or null to object'')"
| "object_entries (JBool b) = Inr []"
| "object_entries (JNum n) = Inr []"
| "object_entries (JStr s) = Inr (zip (map show_nat [0..<length s]) (map (\<lambda>c. JStr [c]) s))"
| "object_entries (JArr xs) = Inr (zip (map show_nat [0..<length xs]) xs)"
| "object_entries (JObj kvs) = Inr kvs"

section \<open>The external world\<close>

text \<open>
  \<^verbatim>\<open>execFileSync(command, args, options)\<close> returns the captured standard output or throws
  an error object, of which the tool reads \<^verbatim>\<open>status\<close> and \<^verbatim>\<open>message\<close>. During one
  request the outcome is a function of the command line (the target set is unchanged);
  the options (encoding, buffer ceiling, process environment) are the same at every
  call and are left out. \<^verbatim>\<open>JSON.parse\<close> of a text the tool did not produce itself is
  the runtime's: its outcome is a parameter too. Every function returns the list of
  the processes it invoked, in order, beside its result. What \<^verbatim>\<open>console.error\<close>
  prints is not part of a result and is left out.

  The request is the \<^verbatim>\<open>input\<close> object. Its field \<^verbatim>\<open>context\<close> is \<open>kcontext\<close> here
  (the word is reserved), and \<^verbatim>\<open>tail\<close> is an integral number.
\<close>

type_synonym call = "string \<times> string list"

record env =
  exec :: "string \<Rightarrow> string list \<Rightarrow> js_error + string"
  json_parse :: "string \<Rightarrow> js_error + jsval"

record log_input =
  resourceType :: string
  name :: string
  namespace :: string
  container :: "string option"
  tail :: "int option"
  since :: "string option"
  sinceTime :: "string option"
  timestamps :: "bool option"
  previous :: "bool option"
  follow :: "bool option"
  labelSelector :: "string option"
  kcontext :: string

text \<open>
  The value a tool call resolves to is \<^verbatim>\<open>{content: [{type: "text", text}], isError?}\<close>.
  The text is always \<^verbatim>\<open>JSON.stringify(value, null, 2)\<close>; \<open>content_text\<close> is that
  document, kept as the value it denotes, so that \<^verbatim>\<open>JSON.parse\<close> of it (in the cronjob
  loop) is the identity. \<open>isError\<close> is false where the source leaves the field out.
\<close>

record tool_result =
  content_text :: jsval
  isError :: bool

datatype error_code = InvalidRequest | InternalError

datatype mcp_error = McpError error_code string

section \<open>The error classifier\<close>

text \<open>
  The three regular expressions of \<^verbatim>\<open>handleCommandError\<close> have the shape
  \<^verbatim>\<open>LITERAL([^c]+)\<close>, the two bracketed ones followed by \<^verbatim>\<open>\]\<close>. At one start
  position the greedy class takes the longest run of characters other than \<open>c\<close>; a
  shorter run never helps, since the character after it is again not \<open>c\<close>.
  \<^verbatim>\<open>match\<close> tries the start positions from left to right.
\<close>

definition match_run :: "string \<Rightarrow> char \<Rightarrow> bool \<Rightarrow> string \<Rightarrow> string option" where
  \<comment> \<open>the capture group of a match starting at the head of \<open>s\<close>\<close>
  "match_run lit stop closing s =
     (if prefix lit s
      then (let rest = drop (length lit) s;
                cap = takeWhile (\<lambda>c. c \<noteq> stop) rest;
                after = dropWhile (\<lambda>c. c \<noteq> stop) rest
            in if cap \<noteq> [] \<and> (after \<noteq> [] \<or> \<not> closing) then Some cap else None)
      else None)"

fun regex_match :: "string \<Rightarrow> char \<Rightarrow> bool \<Rightarrow> string \<Rightarrow> string option" where
  "regex_match lit stop closing [] = match_run lit stop closing []"
| "regex_match lit stop closing (c # cs) =
     (case match_run lit stop closing (c # cs) of
        Some cap \<Rightarrow> Some cap
      | None \<Rightarrow> regex_match lit stop closing cs)"

definition podNameMatch :: "string \<Rightarrow> string option" where
  \<comment> \<open>\<^verbatim>\<open>/for pod ([^,]+)/\<close>\<close>
  "podNameMatch msg = regex_match ''for pod '' (CHR '','') False msg"

definition containersMatch :: "string \<Rightarrow> string option" where
  \<comment> \<open>\<^verbatim>\<open>/choose one of: \[([^\]]+)\]/\<close>\<close>
  "containersMatch msg = regex_match ''choose one of: ['' (CHR '']'') True msg"

definition initContainersMatch :: "string \<Rightarrow> string option" where
  \<comment> \<open>\<^verbatim>\<open>/or one of the init containers: \[([^\]]+)\]/\<close>\<close>
  "initContainersMatch msg =
     regex_match ''or one of the init containers: ['' (CHR '']'') True msg"

definition container_list :: "string option \<Rightarrow> string list" where
  \<comment> \<open>\<^verbatim>\<open>m ? m[1].split(" ").map(c => c.trim()) : []\<close>\<close>
  "container_list m =
     (case m of None \<Rightarrow> [] | Some cap \<Rightarrow> map trim (split_str (CHR '' '') cap))"

definition suggestion_text :: "string list \<Rightarrow> string list \<Rightarrow> string" where
  "suggestion_text containers initContainers =
     ''Please specify a container name using the 'container' parameter. Available containers: ''
     @ join_str '', '' containers
     @ (if length initContainers > 0
        then ''. Init containers: '' @ join_str '', '' initContainers else [])"

definition handleCommandError :: "js_error \<Rightarrow> string \<Rightarrow> tool_result" where
  "handleCommandError error resourceDescription =
     (if status error = Some 404 \<or> str_includes (message error) ''not found''
      then \<lparr>content_text = JSON_stringify (JObj
              [(''error'', JStr (''Resource '' @ resourceDescription @ '' not found'')),
               (''status'', JStr ''not_found'')]),
            isError = True\<rparr>
      else if str_includes (message error) ''a container name must be specified''
      then (let podName = (case podNameMatch (message error) of
                             Some p \<Rightarrow> p | None \<Rightarrow> ''unknown'');
                containers = container_list (containersMatch (message error));
                initContainers = container_list (initContainersMatch (message error))
            in \<lparr>content_text = JSON_stringify (JObj
                  [(''error'', JStr ''Multi-container pod requires container specification''),
                   (''status'', JStr ''multi_container_error''),
                   (''pod_name'', JStr podName),
                   (''available_containers'', JArr (map JStr containers)),
                   (''init_containers'', JArr (map JStr initContainers)),
                   (''suggestion'', JStr (suggestion_text containers initContainers))]),
                isError = True\<rparr>)
      else \<lparr>content_text = JSON_stringify (JObj
              [(''error'', JStr (''Failed to get logs for '' @ resourceDescription @ '': ''
                                 @ message error)),
               (''status'', JStr ''general_error''),
               (''original_error'', JStr (message error))]),
            isError = True\<rparr>)"

section \<open>Fetching logs\<close>

definition formatLogOutput :: "string \<Rightarrow> string \<Rightarrow> tool_result" where
  "formatLogOutput resourceName logOutput =
     \<lparr>content_text = JSON_stringify (JObj
        [(''name'', JStr resourceName), (''logs'', JStr logOutput)]),
      isError = False\<rparr>"

definition addLogOptions :: "string list \<Rightarrow> log_input \<Rightarrow> string list" where
  "addLogOptions args0 input =
     (let args1 = (case tail input of
                     None \<Rightarrow> args0
                   | Some t \<Rightarrow> args0 @ [''--tail='' @ show_int t]);
          args2 = (case since input of
                     None \<Rightarrow> args1
                   | Some s \<Rightarrow> if s \<noteq> [] then args1 @ [''--since='' @ s] else args1);
          args3 = (case sinceTime input of
                     None \<Rightarrow> args2
                   | Some s \<Rightarrow> if s \<noteq> [] then args2 @ [''--since-time='' @ s] else args2);
          args4 = (if timestamps input = Some True then args3 @ [''--timestamps''] else args3);
          args5 = (if previous input = Some True then args4 @ [''--previous''] else args4)
      in if follow input = Some True then args5 @ [''--follow''] else args5)"

definition logsArgs :: "string \<Rightarrow> string \<Rightarrow> log_input \<Rightarrow> string \<Rightarrow> string list" where
  \<comment> \<open>the command line of one fetch: the pod, the container if given, the options\<close>
  "logsArgs context namespace' input pod =
     (let args = [''--context'', context, ''-n'', namespace', ''logs'', pod]
      in addLogOptions
           (case container input of
              None \<Rightarrow> args
            | Some c \<Rightarrow> if c \<noteq> [] then args @ [''-c'', c] else args)
           input)"

definition jsonpath_names :: string where
  "jsonpath_names = ''jsonpath='{.items[*].metadata.name}'' @ [CHR 0x27]"

definition podsArgs :: "string \<Rightarrow> string \<Rightarrow> string \<Rightarrow> string list" where
  "podsArgs context namespace' labelSelector' =
     [''--context'', context, ''-n'', namespace', ''get'', ''pods'',
      ''--selector='' @ labelSelector', ''-o'', jsonpath_names]"

definition jobsArgs :: "string \<Rightarrow> string \<Rightarrow> string \<Rightarrow> string list" where
  "jobsArgs context namespace' name' =
     [''--context'', context, ''-n'', namespace', ''get'', ''jobs'',
      ''--selector=job-name='' @ name', ''-o'', jsonpath_names]"

definition selectorArgs :: "string \<Rightarrow> string \<Rightarrow> string \<Rightarrow> string list" where
  "selectorArgs context namespace' name' =
     [''--context'', context, ''-n'', namespace', ''get'', ''deployment'', name', ''-o'',
      ''jsonpath='{.spec.selector.matchLabels}'' @ [CHR 0x27]]"

definition fetchEntry :: "env \<Rightarrow> string list \<Rightarrow> string" where
  \<comment> \<open>the \<^verbatim>\<open>try\<close> of lines 370 to 379: what is stored for one pod\<close>
  "fetchEntry e podArgs =
     (case exec e ''kubectl'' podArgs of
        Inr logs \<Rightarrow> logs
      | Inl error \<Rightarrow> ''Error: '' @ message error)"

fun fetchPods ::
  "env \<Rightarrow> string \<Rightarrow> string \<Rightarrow> log_input \<Rightarrow> string list \<Rightarrow> props \<Rightarrow> call list \<times> props" where
  \<comment> \<open>the loop \<^verbatim>\<open>for (const pod of pods)\<close> of \<^verbatim>\<open>getLabelSelectorLogs\<close>, on \<open>logsMap\<close>\<close>
  "fetchPods e context namespace' input [] logsMap = ([], logsMap)"
| "fetchPods e context namespace' input (pod # pods) logsMap =
     (if pod = [] then fetchPods e context namespace' input pods logsMap
      else (let podArgs = logsArgs context namespace' input pod;
                (calls, logsMap') =
                  fetchPods e context namespace' input pods
                    (js_set logsMap pod (JStr (fetchEntry e podArgs)))
            in ((''kubectl'', podArgs) # calls, logsMap')))"

definition getLabelSelectorLogs ::
  "env \<Rightarrow> string \<Rightarrow> string \<Rightarrow> log_input \<Rightarrow> string \<Rightarrow> call list \<times> tool_result" where
  "getLabelSelectorLogs e labelSelector' namespace' input context =
     (let command = ''kubectl'';
          podsArgs = podsArgs context namespace' labelSelector'
      in case exec e command podsArgs of
           Inl error \<Rightarrow>
             ([(command, podsArgs)],
              handleCommandError error
                (''pods with selector '' @ [CHR 0x22] @ labelSelector' @ [CHR 0x22]))
         | Inr out \<Rightarrow>
             (let pods = split_str (CHR '' '') (trim out)
              in if length pods = 0 \<or> (length pods = 1 \<and> pods ! 0 = [])
                 then ([(command, podsArgs)],
                       \<lparr>content_text = JSON_stringify (JObj
                          [(''message'', JStr (''No pods found with label selector ''
                              @ [CHR 0x22] @ labelSelector' @ [CHR 0x22]
                              @ '' in namespace '' @ namespace'))]),
                        isError = False\<rparr>)
                 else (let (calls, logsMap) = fetchPods e context namespace' input pods []
                       in ((command, podsArgs) # calls,
                           \<lparr>content_text = JSON_stringify (JObj
                              [(''selector'', JStr labelSelector'),
                               (''namespace'', JStr namespace'),
                               (''logs'', JObj logsMap)]),
                            isError = False\<rparr>))))"

section \<open>Resolving the resource\<close>

fun fetchJobs ::
  "env \<Rightarrow> string \<Rightarrow> string \<Rightarrow> log_input \<Rightarrow> string list \<Rightarrow> props \<Rightarrow> call list \<times> props" where
  \<comment> \<open>the loop \<^verbatim>\<open>for (const job of jobs)\<close> of \<^verbatim>\<open>kubectlLogs\<close>, on \<open>allJobLogs\<close>;
     \<^verbatim>\<open>JSON.parse\<close> of the document of \<open>result\<close> is the value the document denotes\<close>
  "fetchJobs e context namespace' input [] allJobLogs = ([], allJobLogs)"
| "fetchJobs e context namespace' input (job # jobs) allJobLogs =
     (let (calls, result) = getLabelSelectorLogs e (''job-name='' @ job) namespace' input context;
          jobLog = content_text result;
          (calls', allJobLogs') =
            fetchJobs e context namespace' input jobs
              (js_set allJobLogs job (get_prop jobLog ''logs''))
      in (calls @ calls', allJobLogs'))"

fun entry_strings :: "props \<Rightarrow> js_error + string list" where
  \<comment> \<open>\<^verbatim>\<open>entries.map(([key, value]) => `${key}=${value}`)\<close>\<close>
  "entry_strings [] = Inr []"
| "entry_strings ((key, v) # rest) =
     (case js_to_string v of
        Inl err \<Rightarrow> Inl err
      | Inr s \<Rightarrow> (case entry_strings rest of
                   Inl err \<Rightarrow> Inl err
                 | Inr ss \<Rightarrow> Inr ((key @ ''='' @ s) # ss)))"

definition deploymentSelector :: "env \<Rightarrow> string \<Rightarrow> js_error + string" where
  \<comment> \<open>from the output of the selector read to the label selector (lines 229 to 235)\<close>
  "deploymentSelector e out =
     (case json_parse e (replace_quotes (trim out)) of
        Inl err \<Rightarrow> Inl err
      | Inr selector \<Rightarrow>
          (case object_entries selector of
             Inl err \<Rightarrow> Inl err
           | Inr entries \<Rightarrow>
               (case entry_strings entries of
                  Inl err \<Rightarrow> Inl err
                | Inr strs \<Rightarrow> Inr (join_str '','' strs))))"

text \<open>
  Every statement of \<^verbatim>\<open>kubectlLogs\<close> that can throw stands in an inner \<^verbatim>\<open>try\<close> whose
  handler returns \<^verbatim>\<open>handleCommandError\<close>, so the outer handler only ever sees the
  \<^verbatim>\<open>McpError\<close> of the last branch and throws it again. The branch that answers
  "Unexpected resource type" (lines 241 to 255) is reached by no resource type: a job
  and a cronjob have returned before it.
\<close>

definition kubectlLogs :: "env \<Rightarrow> log_input \<Rightarrow> call list \<times> (mcp_error + tool_result)" where
  "kubectlLogs e input =
     (let resourceType = toLowerCase (resourceType input);
          name = name input;
          namespace = (if namespace input = [] then ''default'' else namespace input);
          context = kcontext input;
          command = ''kubectl''
      in if resourceType = ''pod''
         then (let args = logsArgs context namespace input name
               in ([(command, args)],
                   Inr (case exec e command args of
                          Inr result \<Rightarrow> formatLogOutput name result
                        | Inl error \<Rightarrow> handleCommandError error (''pod '' @ name))))
         else if resourceType = ''deployment'' \<or> resourceType = ''job''
                 \<or> resourceType = ''cronjob''
         then (if resourceType = ''deployment''
               then (let selectorArgs = selectorArgs context namespace name
                     in case exec e command selectorArgs of
                          Inl error \<Rightarrow>
                            ([(command, selectorArgs)],
                             Inr (handleCommandError error (resourceType @ '' '' @ name)))
                        | Inr out \<Rightarrow>
                            (case deploymentSelector e out of
                               Inl error \<Rightarrow>
                                 ([(command, selectorArgs)],
                                  Inr (handleCommandError error (resourceType @ '' '' @ name)))
                             | Inr labelSelector' \<Rightarrow>
                                 (let (calls, result) =
                                        getLabelSelectorLogs e labelSelector' namespace input context
                                  in ((command, selectorArgs) # calls, Inr result))))
               else if resourceType = ''job''
               then (let (calls, result) =
                           getLabelSelectorLogs e (''job-name='' @ name) namespace input context
                     in (calls, Inr result))
               else (let jobsArgs = jobsArgs context namespace name
                     in case exec e command jobsArgs of
                          Inl error \<Rightarrow>
                            ([(command, jobsArgs)],
                             Inr (handleCommandError error (''cronjob '' @ name)))
                        | Inr out \<Rightarrow>
                            (let jobs = split_str (CHR '' '') (trim out)
                             in if length jobs = 0 \<or> (length jobs = 1 \<and> jobs ! 0 = [])
                                then ([(command, jobsArgs)],
                                      Inr \<lparr>content_text = JSON_stringify (JObj
                                             [(''message'', JStr (''No jobs found for cronjob ''
                                                 @ name @ '' in namespace '' @ namespace))]),
                                           isError = False\<rparr>)
                                else (let (calls, allJobLogs) =
                                            fetchJobs e context namespace input jobs []
                                      in ((command, jobsArgs) # calls,
                                          Inr \<lparr>content_text = JSON_stringify (JObj
                                                 [(''cronjob'', JStr name),
                                                  (''namespace'', JStr namespace),
                                                  (''jobs'', JObj allJobLogs)]),
                                               isError = False\<rparr>)))))
         else (case labelSelector input of
                 None \<Rightarrow>
                   ([], Inl (McpError InvalidRequest
                               (''Unsupported resource type: '' @ resourceType)))
               | Some sel \<Rightarrow>
                   if sel \<noteq> []
                   then (let (calls, result) =
                               getLabelSelectorLogs e sel namespace input context
                         in (calls, Inr result))
                   else ([], Inl (McpError InvalidRequest
                                    (''Unsupported resource type: '' @ resourceType)))))"

section \<open>Observing a report\<close>

definition is_str :: "jsval \<Rightarrow> bool" where
  "is_str v = (case v of JStr s \<Rightarrow> True | _ \<Rightarrow> False)"

definition obj_props :: "jsval \<Rightarrow> props" where
  \<comment> \<open>the properties of an object of a report\<close>
  "obj_props v = (case v of JObj kvs \<Rightarrow> kvs | _ \<Rightarrow> [])"

definition jobLogs :: "env \<Rightarrow> string \<Rightarrow> string \<Rightarrow> log_input \<Rightarrow> string \<Rightarrow> jsval" where
  \<comment> \<open>\<^verbatim>\<open>jobLog.logs\<close> for one job: the \<open>logs\<close> field of its single-level result\<close>
  "jobLogs e c ns i job =
     get_prop (content_text (snd (getLabelSelectorLogs e (''job-name='' @ job) ns i c))) ''logs''"

definition leftmost_capture :: "string \<Rightarrow> char \<Rightarrow> bool \<Rightarrow> string \<Rightarrow> string option \<Rightarrow> bool" where
  \<comment> \<open>\<open>res\<close> is the capture at the least offset of \<open>msg\<close> where the pattern matches, or
     \<open>None\<close> when it matches at no offset\<close>
  "leftmost_capture lit stop closing msg res =
     (case res of
        None \<Rightarrow> (\<forall>n. match_run lit stop closing (drop n msg) = None)
      | Some cap \<Rightarrow>
          (\<exists>n. n \<le> length msg \<and> match_run lit stop closing (drop n msg) = Some cap
               \<and> (\<forall>m. m < n \<longrightarrow> match_run lit stop closing (drop m msg) = None)))"

definition agree_on :: "env \<Rightarrow> env \<Rightarrow> call list \<Rightarrow> bool" where
  \<comment> \<open>both worlds answer every listed command line alike\<close>
  "agree_on e1 e2 calls =
     list_all (\<lambda>call. exec e2 (fst call) (snd call) = exec e1 (fst call) (snd call)) calls"

section \<open>Example requests and worlds\<close>

definition request0 :: log_input where
  "request0 = \<lparr>resourceType = ''pod'', name = ''web-1'', namespace = ''prod'', container = None,
     tail = None, since = None, sinceTime = None, timestamps = None, previous = None,
     follow = None, labelSelector = None, kcontext = ''dev''\<rparr>"

definition silent_env :: env where
  \<comment> \<open>every process prints nothing\<close>
  "silent_env = \<lparr>exec = (\<lambda>command args. Inr []), json_parse = (\<lambda>s. Inr JNull)\<rparr>"

definition both_markers :: string where
  "both_markers = ''a container name must be specified for pod web-1, choose one of: [app sidecar]: pods web-1 not found''"

definition selector_request :: log_input where
  "selector_request = request0\<lparr>resourceType := ''Service'', namespace := [], labelSelector := Some ''app=web''\<rparr>"

definition web_pods_env :: env where
  "web_pods_env =
     \<lparr>exec = (\<lambda>command args.
        if args = podsArgs ''dev'' ''default'' ''app=web'' then Inr ''web-1 web-2''
        else if args = logsArgs ''dev'' ''default'' request0 ''web-2''
        then Inl \<lparr>status = Some 1, message = ''container is waiting to start''\<rparr>
        else Inr ''ready''),
      json_parse = (\<lambda>s. Inr JNull)\<rparr>"

definition ambiguous_message :: string where
  "ambiguous_message = ''a container name must be specified for pod web-1, choose one of: [app sidecar] or one of the init containers: [init]''"

definition ambiguous_env :: env where
  "ambiguous_env =
     \<lparr>exec = (\<lambda>command args.
        if args = podsArgs ''dev'' ''prod'' ''app=web'' then Inr ''web-1''
        else Inl \<lparr>status = Some 1, message = ambiguous_message\<rparr>),
      json_parse = (\<lambda>s. Inr JNull)\<rparr>"

definition nightly_env :: env where
  "nightly_env =
     \<lparr>exec = (\<lambda>command args.
        if args = jobsArgs ''dev'' ''prod'' ''nightly'' then Inr ''nightly-1 nightly-2''
        else if args = podsArgs ''dev'' ''prod'' ''job-name=nightly-1'' then Inr ''nightly-1-abcde''
        else if args = podsArgs ''dev'' ''prod'' ''job-name=nightly-2'' then Inr []
        else Inr ''done''),
      json_parse = (\<lambda>s. Inr JNull)\<rparr>"

definition nightly_request :: log_input where
  "nightly_request = request0\<lparr>resourceType := ''CronJob'', name := ''nightly''\<rparr>"

definition deploy_request :: log_input where
  "deploy_request = request0\<lparr>resourceType := ''deployment'', name := ''web''\<rparr>"

definition deploy_env :: env where
  "deploy_env =
     \<lparr>exec = (\<lambda>command args.
        if args = selectorArgs ''dev'' ''prod'' ''web'' then Inr ''{'app':'x','tier':'web'}''
        else if args = podsArgs ''dev'' ''prod'' ''app=x,tier=web'' then Inr ''web-5d9c''
        else Inr ''serving''),
      json_parse = (\<lambda>s.
        if s = replace_quotes ''{'app':'x','tier':'web'}''
        then Inr (JObj [(''app'', JStr ''x''), (''tier'', JStr ''web'')])
        else Inl \<lparr>status = None, message = ''Unexpected end of JSON input''\<rparr>)\<rparr>"

definition missing_message :: string where
  "missing_message = ''Error from server (NotFound): deployments.apps ''
     @ [CHR 0x22] @ ''web'' @ [CHR 0x22] @ '' not found''"

definition missing_env :: env where
  "missing_env =
     \<lparr>exec = (\<lambda>command args. Inl \<lparr>status = Some 1, message = missing_message\<rparr>),
      json_parse = (\<lambda>s. Inr JNull)\<rparr>"

definition refused_message :: string where
  "refused_message = ''The connection to the server localhost:8080 was refused''"

definition refused_env :: env where
  "refused_env =
     \<lparr>exec = (\<lambda>command args. Inl \<lparr>status = Some 1, message = refused_message\<rparr>),
      json_parse = (\<lambda>s. Inr JNull)\<rparr>"

definition tab_message :: string where
  "tab_message = ''a container name must be specified for pod web-1, choose one of: [app''
     @ [CHR 0x09] @ ''sidecar]''"

definition other_env :: env where
  \<comment> \<open>as \<open>web_pods_env\<close> for \<^verbatim>\<open>kubectl\<close>, different for every other program\<close>
  "other_env =
     web_pods_env\<lparr>exec := (\<lambda>command args.
        if command = ''kubectl'' then exec web_pods_env command args else Inr ''other'')\<rparr>"

section \<open>Auxiliary facts\<close>

subsection \<open>Strings\<close>

lemma split_str_not_Nil: "split_str sep s \<noteq> []"
  by (induction s) (auto split: list.splits)

lemma split_str_hd: "s \<noteq> [] \<Longrightarrow> hd s \<noteq> sep \<Longrightarrow> hd (split_str sep s) \<noteq> []"
  by (cases s) (auto split: list.splits)

lemma dropWhile_rev_last:
  "t \<noteq> [] \<Longrightarrow> \<not> P (hd t) \<Longrightarrow> rev (dropWhile P (rev t)) \<noteq> [] \<and> hd (rev (dropWhile P (rev t))) = hd t"
proof -
  assume t: "t \<noteq> []" and np: "\<not> P (hd t)"
  then obtain x xs where tx: "t = x # xs" by (cases t) auto
  have "dropWhile P (rev xs @ [x]) = dropWhile P (rev xs) @ [x]"
    using np tx by (simp add: dropWhile_append3 dropWhile_append)
  then show ?thesis using tx by simp
qed

lemma trim_hd: "trim s \<noteq> [] \<Longrightarrow> \<not> is_white_space (hd (trim s))"
proof -
  assume ne: "trim s \<noteq> []"
  let ?t = "dropWhile is_white_space s"
  have t: "?t \<noteq> []"
  proof
    assume "?t = []"
    then have "trim s = []" unfolding trim_def by (simp only: rev.simps dropWhile.simps)
    with ne show False by simp
  qed
  then have "\<not> is_white_space (hd ?t)" by (simp add: hd_dropWhile)
  with t dropWhile_rev_last[of ?t is_white_space] show ?thesis
    by (simp add: trim_def)
qed

lemma trim_hd_not_space: "trim s \<noteq> [] \<Longrightarrow> hd (trim s) \<noteq> CHR '' ''"
  using trim_hd[of s] by (auto simp: is_white_space_def)

lemma names_empty_iff:
  "filter (\<lambda>p. p \<noteq> []) (split_str (CHR '' '') (trim out)) = [] \<longleftrightarrow> trim out = []"
proof
  assume f: "filter (\<lambda>p. p \<noteq> []) (split_str (CHR '' '') (trim out)) = []"
  show "trim out = []"
  proof (rule ccontr)
    assume ne: "trim out \<noteq> []"
    then have "hd (split_str (CHR '' '') (trim out)) \<noteq> []"
      using split_str_hd trim_hd_not_space by blast
    moreover have "hd (split_str (CHR '' '') (trim out)) \<in> set (split_str (CHR '' '') (trim out))"
      using split_str_not_Nil by simp
    ultimately show False using f by (auto simp: filter_empty_conv)
  qed
next
  assume "trim out = []" then show "filter (\<lambda>p. p \<noteq> []) (split_str (CHR '' '') (trim out)) = []" by simp
qed

lemma no_names_test:
  "(length (split_str (CHR '' '') t) = 0 \<or> (length (split_str (CHR '' '') t) = 1 \<and> split_str (CHR '' '') t ! 0 = []))
    \<longleftrightarrow> t = []"
proof (cases t)
  case Nil then show ?thesis by simp
next
  case (Cons c cs)
  have "split_str (CHR '' '') cs \<noteq> []" by (rule split_str_not_Nil)
  then obtain w ws where "split_str (CHR '' '') cs = w # ws" by (cases "split_str (CHR '' '') cs") auto
  then show ?thesis using Cons by auto
qed

subsection \<open>The regular expressions\<close>

lemma takeWhile_run:
  "stop \<notin> set cap \<Longrightarrow> rest = [] \<or> hd rest = stop \<Longrightarrow>
   takeWhile (\<lambda>c. c \<noteq> stop) (cap @ rest) = cap"
  by (induction cap) (cases rest; auto)+

lemma dropWhile_run:
  "stop \<notin> set cap \<Longrightarrow> rest = [] \<or> hd rest = stop \<Longrightarrow>
   dropWhile (\<lambda>c. c \<noteq> stop) (cap @ rest) = rest"
  by (induction cap) (cases rest; auto)+

lemma match_run_Some_iff:
  "match_run lit stop closing s = Some cap \<longleftrightarrow>
     (\<exists>rest. s = lit @ cap @ rest \<and> cap \<noteq> [] \<and> stop \<notin> set cap
        \<and> (rest = [] \<or> hd rest = stop) \<and> (closing \<longrightarrow> rest \<noteq> []))"
proof
  assume m: "match_run lit stop closing s = Some cap"
  then have p: "prefix lit s" by (auto simp: match_run_def split: if_splits)
  let ?rest = "drop (length lit) s"
  have s: "s = lit @ ?rest" using p by (auto simp: prefix_def)
  have c: "cap = takeWhile (\<lambda>c. c \<noteq> stop) ?rest" "cap \<noteq> []"
    "closing \<longrightarrow> dropWhile (\<lambda>c. c \<noteq> stop) ?rest \<noteq> []"
    using m p by (auto simp: match_run_def Let_def split: if_splits)
  let ?after = "dropWhile (\<lambda>c. c \<noteq> stop) ?rest"
  have "?rest = cap @ ?after" using c(1) by simp
  moreover have "stop \<notin> set cap" using c(1) by (auto dest: set_takeWhileD)
  moreover have "?after = [] \<or> hd ?after = stop"
    using hd_dropWhile[of "\<lambda>c. c \<noteq> stop" ?rest] by auto
  ultimately show "\<exists>rest. s = lit @ cap @ rest \<and> cap \<noteq> [] \<and> stop \<notin> set cap
        \<and> (rest = [] \<or> hd rest = stop) \<and> (closing \<longrightarrow> rest \<noteq> [])"
    using s c(2,3) by metis
next
  assume "\<exists>rest. s = lit @ cap @ rest \<and> cap \<noteq> [] \<and> stop \<notin> set cap
        \<and> (rest = [] \<or> hd rest = stop) \<and> (closing \<longrightarrow> rest \<noteq> [])"
  then obtain rest where r: "s = lit @ cap @ rest" "cap \<noteq> []" "stop \<notin> set cap"
    "rest = [] \<or> hd rest = stop" "closing \<longrightarrow> rest \<noteq> []" by blast
  have t: "takeWhile (\<lambda>c. c \<noteq> stop) (cap @ rest) = cap"
    using r(3,4) by (rule takeWhile_run)
  have d: "dropWhile (\<lambda>c. c \<noteq> stop) (cap @ rest) = rest"
    using r(3,4) by (rule dropWhile_run)
  have dr: "drop (length lit) s = cap @ rest" using r(1) by simp
  have pf: "prefix lit s" using r(1) by simp
  show "match_run lit stop closing s = Some cap"
    unfolding match_run_def Let_def dr t d using pf r(2,5) by auto
qed

lemma regex_match_leftmost:
  "leftmost_capture lit stop closing msg (regex_match lit stop closing msg)"
proof (induction msg)
  case Nil
  then show ?case
    by (cases "match_run lit stop closing []") (auto simp: leftmost_capture_def)
next
  case (Cons c cs)
  show ?case
  proof (cases "match_run lit stop closing (c # cs)")
    case (Some cap)
    then have "regex_match lit stop closing (c # cs) = Some cap" by simp
    moreover have "leftmost_capture lit stop closing (c # cs) (Some cap)"
      unfolding leftmost_capture_def using Some by (auto intro: exI[of _ 0])
    ultimately show ?thesis by simp
  next
    case None
    then have eq: "regex_match lit stop closing (c # cs) = regex_match lit stop closing cs" by simp
    show ?thesis
    proof (cases "regex_match lit stop closing cs")
      case n: None
      then have "\<forall>n. match_run lit stop closing (drop n cs) = None"
        using Cons.IH by (simp add: leftmost_capture_def)
      then have "match_run lit stop closing (drop n (c # cs)) = None" for n
        using None by (cases n) auto
      then show ?thesis using eq n by (simp add: leftmost_capture_def)
    next
      case s: (Some cap)
      then obtain n where n: "n \<le> length cs" "match_run lit stop closing (drop n cs) = Some cap"
        "\<forall>m. m < n \<longrightarrow> match_run lit stop closing (drop m cs) = None"
        using Cons.IH by (auto simp: leftmost_capture_def)
      have "match_run lit stop closing (drop m (c # cs)) = None" if "m < Suc n" for m
        using that None n(3) by (cases m) auto
      then have "Suc n \<le> length (c # cs) \<and> match_run lit stop closing (drop (Suc n) (c # cs)) = Some cap
          \<and> (\<forall>m. m < Suc n \<longrightarrow> match_run lit stop closing (drop m (c # cs)) = None)"
        using n(1,2) by simp
      then show ?thesis unfolding eq s leftmost_capture_def by (simp only: option.case) blast
    qed
  qed
qed

subsection \<open>Objects and the fetch loop\<close>

lemma ins_index_set: "set (ins_index n k v obj) = insert (k, v) (set obj)"
  by (induction obj) (auto split: option.splits if_splits)

lemma ins_index_length: "length (ins_index n k v obj) = Suc (length obj)"
  by (induction obj) (auto split: option.splits)

lemma ins_index_distinct:
  "k \<notin> fst ` set obj \<Longrightarrow> distinct (map fst obj) \<Longrightarrow> distinct (map fst (ins_index n k v obj))"
  by (induction obj) (auto simp: ins_index_set split: option.splits)

lemma ins_index_map_of:
  "k \<notin> fst ` set obj \<Longrightarrow> map_of (ins_index n k v obj) = (map_of obj)(k \<mapsto> v)"
  by (induction obj) (auto split: option.splits)

lemma map_add_new:
  "k \<notin> fst ` set obj \<Longrightarrow> [k \<mapsto> v] ++ map_of obj = (map_of obj)(k \<mapsto> v)"
proof -
  assume "k \<notin> fst ` set obj"
  then have n: "map_of obj k = None" by (simp add: map_of_eq_None_iff)
  show ?thesis
  proof
    fix x
    show "([k \<mapsto> v] ++ map_of obj) x = ((map_of obj)(k \<mapsto> v)) x"
      using n by (cases "map_of obj x") (auto simp: map_add_def)
  qed
qed

lemma js_set_proto: "js_set obj ''__proto__'' v = obj"
  by (simp add: js_set_def)

lemma js_set_map_of:
  "k \<noteq> ''__proto__'' \<Longrightarrow> map_of (js_set obj k v) = (map_of obj)(k \<mapsto> v)"
  unfolding js_set_def
  by (simp add: update_conv' ins_index_map_of map_add_new split: option.splits)

lemma js_set_keys:
  "k \<noteq> ''__proto__'' \<Longrightarrow> fst ` set (js_set obj k v) = insert k (fst ` set obj)"
  using dom_update[of k v obj]
  by (auto simp: js_set_def ins_index_set split: option.splits)

lemma js_set_distinct:
  "distinct (map fst obj) \<Longrightarrow> distinct (map fst (js_set obj k v))"
  by (auto simp: js_set_def distinct_update ins_index_distinct split: option.splits)

lemma js_set_values:
  "snd ` set (js_set obj k v) \<subseteq> insert v (snd ` set obj)"
proof -
  have "snd ` set (AList.update k v obj) \<subseteq> insert v (snd ` set obj)"
    by (induction obj) auto
  then show ?thesis
    by (auto simp: js_set_def ins_index_set split: option.splits)
qed

lemma is_str_JStr: "is_str (JStr s)"
  by (simp add: is_str_def)

lemma stringify_str_props:
  "list_all (\<lambda>kv. is_str (snd kv)) kvs \<Longrightarrow> JSON_stringify (JObj kvs) = JObj kvs"
proof -
  assume a: "list_all (\<lambda>kv. is_str (snd kv)) kvs"
  have m: "map (map_prod id JSON_stringify) kvs = kvs"
    using a by (induction kvs) (auto simp: is_str_def split: jsval.splits)
  have "filter (\<lambda>kv. snd kv \<noteq> JUndefined) kvs = kvs"
    using a by (induction kvs) (auto simp: is_str_def split: jsval.splits)
  with m show ?thesis by simp
qed

lemma js_set_strs:
  assumes "list_all (\<lambda>kv. is_str (snd kv)) obj"
  shows "list_all (\<lambda>kv. is_str (snd kv)) (js_set obj k (JStr s))"
proof -
  have "\<forall>v \<in> insert (JStr s) (snd ` set obj). is_str v"
    using assms by (auto simp: list_all_iff is_str_JStr)
  then have "\<forall>v \<in> snd ` set (js_set obj k (JStr s)). is_str v"
    using js_set_values[of obj k "JStr s"] by blast
  then show ?thesis by (simp add: list_all_iff)
qed

lemma fetchPods_calls:
  "fst (fetchPods e c ns i pods m) =
     map (\<lambda>p. (''kubectl'', logsArgs c ns i p)) (filter (\<lambda>p. p \<noteq> []) pods)"
  by (induction pods arbitrary: m) (simp_all add: Let_def case_prod_beta)

lemma fetchPods_step:
  "p \<noteq> [] \<Longrightarrow> snd (fetchPods e c ns i (p # ps) m) =
     snd (fetchPods e c ns i ps (js_set m p (JStr (fetchEntry e (logsArgs c ns i p)))))"
  by (simp add: Let_def case_prod_beta)

lemma fetchPods_skip:
  "snd (fetchPods e c ns i ([] # ps) m) = snd (fetchPods e c ns i ps m)"
  by simp

lemma fetchPods_map_of:
  "map_of (snd (fetchPods e c ns i pods m)) k =
     (if k \<in> set pods \<and> k \<noteq> [] \<and> k \<noteq> ''__proto__''
      then Some (JStr (fetchEntry e (logsArgs c ns i k))) else map_of m k)"
proof (induction pods arbitrary: m)
  case Nil
  then show ?case by simp
next
  case (Cons p ps)
  show ?case
  proof (cases "p = []")
    case True
    then show ?thesis using Cons.IH[of m] by (auto simp: fetchPods_skip)
  next
    case False
    note ne = this
    show ?thesis
    proof (cases "p = ''__proto__''")
      case True
      then show ?thesis using Cons.IH[of m] ne
        by (auto simp: fetchPods_step js_set_proto simp del: fetchPods.simps)
    next
      case np: False
      show ?thesis
        using ne np Cons.IH[of "js_set m p (JStr (fetchEntry e (logsArgs c ns i p)))"]
        by (auto simp: fetchPods_step js_set_map_of simp del: fetchPods.simps)
    qed
  qed
qed

lemma fetchPods_distinct:
  "distinct (map fst m) \<Longrightarrow> distinct (map fst (snd (fetchPods e c ns i pods m)))"
proof (induction pods arbitrary: m)
  case Nil
  then show ?case by simp
next
  case (Cons p ps)
  then show ?case
    by (cases "p = []") (simp_all add: fetchPods_step js_set_distinct del: fetchPods.simps add: fetchPods_skip)
qed

lemma fetchPods_keys:
  "fst ` set (snd (fetchPods e c ns i pods m)) =
     fst ` set m \<union> {p \<in> set pods. p \<noteq> [] \<and> p \<noteq> ''__proto__''}"
proof (induction pods arbitrary: m)
  case Nil
  then show ?case by simp
next
  case (Cons p ps)
  show ?case
  proof (cases "p = []")
    case True
    then show ?thesis using Cons.IH[of m] by (auto simp: fetchPods_skip)
  next
    case False
    note ne = this
    show ?thesis
    proof (cases "p = ''__proto__''")
      case True
      have "snd (fetchPods e c ns i (p # ps) m) = snd (fetchPods e c ns i ps m)"
        using ne True by (simp add: fetchPods_step js_set_proto del: fetchPods.simps)
      then show ?thesis using Cons.IH[of m] True by auto
    next
      case np: False
      have "fst ` set (snd (fetchPods e c ns i (p # ps) m)) =
            insert p (fst ` set m) \<union> {p \<in> set ps. p \<noteq> [] \<and> p \<noteq> ''__proto__''}"
        using ne np Cons.IH[of "js_set m p (JStr (fetchEntry e (logsArgs c ns i p)))"]
        by (simp add: fetchPods_step js_set_keys del: fetchPods.simps)
      then show ?thesis using ne np by auto
    qed
  qed
qed

lemma fetchPods_strs:
  "list_all (\<lambda>kv. is_str (snd kv)) m \<Longrightarrow>
   list_all (\<lambda>kv. is_str (snd kv)) (snd (fetchPods e c ns i pods m))"
proof (induction pods arbitrary: m)
  case Nil
  then show ?case by simp
next
  case (Cons p ps)
  then show ?case
    by (cases "p = []") (simp_all add: fetchPods_step fetchPods_skip js_set_strs del: fetchPods.simps)
qed

lemma fetchPods_length:
  assumes "distinct pods" "[] \<notin> set pods" "''__proto__'' \<notin> set pods"
  shows "length (snd (fetchPods e c ns i pods [])) = length pods"
proof -
  let ?m = "snd (fetchPods e c ns i pods [])"
  have d: "distinct (map fst ?m)" by (rule fetchPods_distinct) simp
  have k: "set (map fst ?m) = set pods" using assms by (auto simp: fetchPods_keys)
  have "length ?m = length (map fst ?m)" by simp
  also have "\<dots> = card (set (map fst ?m))" using distinct_card[OF d] by simp
  also have "\<dots> = card (set pods)" using k by (simp only:)
  also have "\<dots> = length pods" using assms(1) by (simp add: distinct_card)
  finally show ?thesis .
qed

subsection \<open>The single-level stage\<close>

lemma gls_error:
  "exec e ''kubectl'' (podsArgs c ns sel) = Inl err \<Longrightarrow>
   getLabelSelectorLogs e sel ns i c =
     ([(''kubectl'', podsArgs c ns sel)],
      handleCommandError err (''pods with selector '' @ [CHR 0x22] @ sel @ [CHR 0x22]))"
  by (simp add: getLabelSelectorLogs_def)

lemma gls_none:
  "exec e ''kubectl'' (podsArgs c ns sel) = Inr out \<Longrightarrow> trim out = [] \<Longrightarrow>
   getLabelSelectorLogs e sel ns i c =
     ([(''kubectl'', podsArgs c ns sel)],
      \<lparr>content_text = JObj [(''message'', JStr (''No pods found with label selector ''
          @ [CHR 0x22] @ sel @ [CHR 0x22] @ '' in namespace '' @ ns))],
       isError = False\<rparr>)"
  by (simp add: getLabelSelectorLogs_def)

lemma stringify_report:
  "list_all (\<lambda>kv. is_str (snd kv)) m \<Longrightarrow>
   JSON_stringify (JObj [(a, JStr x), (b, JStr y), (l, JObj m)]) =
     JObj [(a, JStr x), (b, JStr y), (l, JObj m)]"
  using stringify_str_props[of m] by simp

lemma gls_some:
  assumes "exec e ''kubectl'' (podsArgs c ns sel) = Inr out" "trim out \<noteq> []"
  shows "getLabelSelectorLogs e sel ns i c =
     ((''kubectl'', podsArgs c ns sel)
        # map (\<lambda>p. (''kubectl'', logsArgs c ns i p))
            (filter (\<lambda>p. p \<noteq> []) (split_str (CHR '' '') (trim out))),
      \<lparr>content_text = JObj [(''selector'', JStr sel), (''namespace'', JStr ns),
         (''logs'', JObj (snd (fetchPods e c ns i (split_str (CHR '' '') (trim out)) [])))],
       isError = False\<rparr>)"
proof -
  let ?pods = "split_str (CHR '' '') (trim out)"
  have t: "\<not> (length ?pods = 0 \<or> (length ?pods = 1 \<and> ?pods ! 0 = []))"
    using assms(2) no_names_test[of "trim out"] by simp
  have s: "list_all (\<lambda>kv. is_str (snd kv)) (snd (fetchPods e c ns i ?pods []))"
    by (rule fetchPods_strs) simp
  show ?thesis
    unfolding getLabelSelectorLogs_def Let_def
    using assms(1) t stringify_report[OF s] fetchPods_calls[of e c ns i ?pods "[]"]
    by (simp add: case_prod_beta)
qed

lemma count_by_key:
  assumes "distinct (map fst al)" "distinct ks" "set (map fst al) = set ks"
  shows "length (filter (\<lambda>kv. P (fst kv)) al) = length (filter P ks)"
proof -
  have "length (filter (\<lambda>kv. P (fst kv)) al) = length (filter P (map fst al))"
    by (induction al) auto
  also have "\<dots> = card ({x. P x} \<inter> set (map fst al))"
    using assms(1) by (rule distinct_length_filter)
  also have "\<dots> = card ({x. P x} \<inter> set ks)" using assms(3) by (simp only:)
  also have "\<dots> = length (filter P ks)"
    using assms(2) by (simp only: distinct_length_filter)
  finally show ?thesis .
qed

subsection \<open>The job loop\<close>

lemma stringify_strs: "JSON_stringify (JArr (map JStr xs)) = JArr (map JStr xs)"
  by (induction xs) auto

lemma hce_no_logs: "get_prop (content_text (handleCommandError err d)) ''logs'' = JUndefined"
  by (simp add: handleCommandError_def Let_def stringify_strs)

lemma gls_logs:
  "get_prop (content_text (snd (getLabelSelectorLogs e sel ns i c))) ''logs'' =
     (case exec e ''kubectl'' (podsArgs c ns sel) of
        Inl err \<Rightarrow> JUndefined
      | Inr out \<Rightarrow> if trim out = [] then JUndefined
                  else JObj (snd (fetchPods e c ns i (split_str (CHR '' '') (trim out)) [])))"
proof (cases "exec e ''kubectl'' (podsArgs c ns sel)")
  case (Inl err)
  then show ?thesis by (simp add: gls_error hce_no_logs)
next
  case (Inr out)
  then show ?thesis
    by (cases "trim out = []") (simp_all add: gls_none gls_some)
qed

lemma gls_logs_stable:
  "JSON_stringify (get_prop (content_text (snd (getLabelSelectorLogs e sel ns i c))) ''logs'')
     = get_prop (content_text (snd (getLabelSelectorLogs e sel ns i c))) ''logs''"
proof -
  have "list_all (\<lambda>kv. is_str (snd kv)) (snd (fetchPods e c ns i pods []))" for pods
    by (rule fetchPods_strs) simp
  then show ?thesis
    by (simp add: gls_logs stringify_str_props split: sum.splits del: JSON_stringify.simps(7))
qed

lemma fetchJobs_calls:
  "fst (fetchJobs e c ns i jobs m) =
     concat (map (\<lambda>job. fst (getLabelSelectorLogs e (''job-name='' @ job) ns i c)) jobs)"
  by (induction jobs arbitrary: m) (simp_all add: Let_def case_prod_beta)

lemma fetchJobs_step:
  "snd (fetchJobs e c ns i (job # jobs) m) =
     snd (fetchJobs e c ns i jobs (js_set m job (jobLogs e c ns i job)))"
  by (simp add: Let_def case_prod_beta jobLogs_def)

lemma fetchJobs_map_of:
  "map_of (snd (fetchJobs e c ns i jobs m)) k =
     (if k \<in> set jobs \<and> k \<noteq> ''__proto__'' then Some (jobLogs e c ns i k) else map_of m k)"
proof (induction jobs arbitrary: m)
  case Nil
  then show ?case by simp
next
  case (Cons j js)
  show ?case
  proof (cases "j = ''__proto__''")
    case True
    then show ?thesis using Cons.IH[of m]
      by (auto simp: fetchJobs_step js_set_proto simp del: fetchJobs.simps)
  next
    case False
    then show ?thesis using Cons.IH[of "js_set m j (jobLogs e c ns i j)"]
      by (auto simp: fetchJobs_step js_set_map_of simp del: fetchJobs.simps)
  qed
qed

lemma fetchJobs_distinct:
  "distinct (map fst m) \<Longrightarrow> distinct (map fst (snd (fetchJobs e c ns i jobs m)))"
proof (induction jobs arbitrary: m)
  case Nil
  then show ?case by simp
next
  case (Cons j js)
  then show ?case by (simp add: fetchJobs_step js_set_distinct del: fetchJobs.simps)
qed

lemma js_set_stable:
  assumes "list_all (\<lambda>kv. JSON_stringify (snd kv) = snd kv) obj" "JSON_stringify v = v"
  shows "list_all (\<lambda>kv. JSON_stringify (snd kv) = snd kv) (js_set obj k v)"
proof -
  have "\<forall>w \<in> insert v (snd ` set obj). JSON_stringify w = w"
    using assms by (auto simp: list_all_iff)
  then have "\<forall>w \<in> snd ` set (js_set obj k v). JSON_stringify w = w"
    using js_set_values[of obj k v] by blast
  then show ?thesis by (simp add: list_all_iff)
qed

lemma fetchJobs_stable:
  "list_all (\<lambda>kv. JSON_stringify (snd kv) = snd kv) m \<Longrightarrow>
   list_all (\<lambda>kv. JSON_stringify (snd kv) = snd kv) (snd (fetchJobs e c ns i jobs m))"
proof (induction jobs arbitrary: m)
  case Nil
  then show ?case by simp
next
  case (Cons j js)
  have "JSON_stringify (jobLogs e c ns i j) = jobLogs e c ns i j"
    unfolding jobLogs_def by (rule gls_logs_stable)
  with Cons show ?case
    by (simp add: fetchJobs_step js_set_stable del: fetchJobs.simps)
qed

lemma map_stable:
  "list_all (\<lambda>kv. JSON_stringify (snd kv) = snd kv) m \<Longrightarrow> map (map_prod id JSON_stringify) m = m"
  by (induction m) auto

lemma map_of_filter_distinct:
  "distinct (map fst al) \<Longrightarrow>
   map_of (filter (\<lambda>kv. snd kv \<noteq> u) al) k =
     (case map_of al k of None \<Rightarrow> None | Some v \<Rightarrow> if v = u then None else Some v)"
proof (induction al)
  case Nil
  then show ?case by simp
next
  case (Cons a al)
  then show ?case
    by (cases a) (auto simp: map_of_eq_None_iff image_iff split: option.splits)
qed

lemma cronjob_error:
  assumes "toLowerCase (resourceType inp) = ''cronjob''"
    and "ns = (if namespace inp = [] then ''default'' else namespace inp)"
    and "exec e ''kubectl'' (jobsArgs (kcontext inp) ns (name inp)) = Inl err"
  shows "kubectlLogs e inp =
           ([(''kubectl'', jobsArgs (kcontext inp) ns (name inp))],
            Inr (handleCommandError err (''cronjob '' @ name inp)))"
  using assms by (simp add: kubectlLogs_def Let_def)

lemma cronjob_none:
  assumes "toLowerCase (resourceType inp) = ''cronjob''"
    and "ns = (if namespace inp = [] then ''default'' else namespace inp)"
    and "exec e ''kubectl'' (jobsArgs (kcontext inp) ns (name inp)) = Inr out"
    and "trim out = []"
  shows "kubectlLogs e inp =
           ([(''kubectl'', jobsArgs (kcontext inp) ns (name inp))],
            Inr \<lparr>content_text = JObj [(''message'', JStr (''No jobs found for cronjob ''
                     @ name inp @ '' in namespace '' @ ns))],
                 isError = False\<rparr>)"
  using assms by (simp add: kubectlLogs_def Let_def)

lemma cronjob_some:
  assumes "toLowerCase (resourceType inp) = ''cronjob''"
    and "ns = (if namespace inp = [] then ''default'' else namespace inp)"
    and "exec e ''kubectl'' (jobsArgs (kcontext inp) ns (name inp)) = Inr out"
    and "trim out \<noteq> []"
    and "jobs = split_str (CHR '' '') (trim out)"
  shows "kubectlLogs e inp =
           ((''kubectl'', jobsArgs (kcontext inp) ns (name inp))
              # concat (map (\<lambda>job. fst (getLabelSelectorLogs e (''job-name='' @ job) ns inp (kcontext inp))) jobs),
            Inr \<lparr>content_text = JObj [(''cronjob'', JStr (name inp)), (''namespace'', JStr ns),
                    (''jobs'', JObj (filter (\<lambda>kv. snd kv \<noteq> JUndefined)
                                 (snd (fetchJobs e (kcontext inp) ns inp jobs []))))],
                 isError = False\<rparr>)"
proof -
  have t: "\<not> (length jobs = 0 \<or> (length jobs = 1 \<and> jobs ! 0 = []))"
    using assms(4,5) no_names_test[of "trim out"] by simp
  have st: "map (map_prod id JSON_stringify) (snd (fetchJobs e (kcontext inp) ns inp jobs []))
              = snd (fetchJobs e (kcontext inp) ns inp jobs [])"
    by (rule map_stable, rule fetchJobs_stable) simp
  show ?thesis
    using assms(1,2,3) t st assms(5) fetchJobs_calls[of e "kcontext inp" ns inp jobs "[]"]
    by (simp add: kubectlLogs_def Let_def case_prod_beta)
qed

subsection \<open>The deployment branch\<close>

lemma entry_strings_labels:
  "entry_strings (map (\<lambda>kv. (fst kv, JStr (snd kv))) labels) =
     Inr (map (\<lambda>kv. fst kv @ ''='' @ snd kv) labels)"
  by (induction labels) auto

lemma gls_first_call:
  "\<exists>rest. fst (getLabelSelectorLogs e sel ns i c) = (''kubectl'', podsArgs c ns sel) # rest"
proof (cases "exec e ''kubectl'' (podsArgs c ns sel)")
  case (Inl err)
  then show ?thesis by (simp add: gls_error)
next
  case (Inr out)
  then show ?thesis by (cases "trim out = []") (simp_all add: gls_none gls_some)
qed

lemma deployment_failed:
  assumes "toLowerCase (resourceType inp) = ''deployment''"
    and "ns = (if namespace inp = [] then ''default'' else namespace inp)"
    and "exec e ''kubectl'' (selectorArgs (kcontext inp) ns (name inp)) = Inl err
         \<or> (\<exists>out. exec e ''kubectl'' (selectorArgs (kcontext inp) ns (name inp)) = Inr out
                \<and> deploymentSelector e out = Inl err)"
  shows "kubectlLogs e inp =
           ([(''kubectl'', selectorArgs (kcontext inp) ns (name inp))],
            Inr (handleCommandError err (''deployment '' @ name inp)))"
  using assms by (auto simp: kubectlLogs_def Let_def)

lemma deployment_resolved:
  assumes "toLowerCase (resourceType inp) = ''deployment''"
    and "ns = (if namespace inp = [] then ''default'' else namespace inp)"
    and "exec e ''kubectl'' (selectorArgs (kcontext inp) ns (name inp)) = Inr out"
    and "deploymentSelector e out = Inr sel"
  shows "kubectlLogs e inp =
           ((''kubectl'', selectorArgs (kcontext inp) ns (name inp))
              # fst (getLabelSelectorLogs e sel ns inp (kcontext inp)),
            Inr (snd (getLabelSelectorLogs e sel ns inp (kcontext inp))))"
  using assms by (simp add: kubectlLogs_def Let_def case_prod_beta)

lemma general_status:
  assumes "status err \<noteq> Some 404" "\<not> str_includes (message err) ''not found''"
    "\<not> str_includes (message err) ''a container name must be specified''"
  shows "handleCommandError err desc =
     \<lparr>content_text = JObj
        [(''error'', JStr (''Failed to get logs for '' @ desc @ '': '' @ message err)),
         (''status'', JStr ''general_error''),
         (''original_error'', JStr (message err))],
      isError = True\<rparr>"
  using assms by (simp add: handleCommandError_def)

subsection \<open>Two worlds that answer alike\<close>

lemma agree_on_Cons:
  "agree_on e1 e2 (call # calls) \<longleftrightarrow>
     exec e2 (fst call) (snd call) = exec e1 (fst call) (snd call) \<and> agree_on e1 e2 calls"
  by (simp add: agree_on_def)

lemma agree_on_append:
  "agree_on e1 e2 (xs @ ys) \<longleftrightarrow> agree_on e1 e2 xs \<and> agree_on e1 e2 ys"
  by (simp add: agree_on_def)

lemma agree_on_Nil: "agree_on e1 e2 []"
  by (simp add: agree_on_def)

lemma fetchPods_cong:
  "agree_on e1 e2 (fst (fetchPods e1 c ns i pods m)) \<Longrightarrow>
   fetchPods e2 c ns i pods m = fetchPods e1 c ns i pods m"
proof (induction pods arbitrary: m)
  case Nil
  then show ?case by simp
next
  case (Cons p ps)
  show ?case
  proof (cases "p = []")
    case True
    then show ?thesis using Cons by simp
  next
    case False
    let ?m = "js_set m p (JStr (fetchEntry e1 (logsArgs c ns i p)))"
    have a: "exec e2 ''kubectl'' (logsArgs c ns i p) = exec e1 ''kubectl'' (logsArgs c ns i p)"
      and b: "agree_on e1 e2 (fst (fetchPods e1 c ns i ps ?m))"
      using Cons.prems False by (simp_all add: Let_def case_prod_beta agree_on_Cons)
    have "fetchEntry e2 (logsArgs c ns i p) = fetchEntry e1 (logsArgs c ns i p)"
      using a by (simp add: fetchEntry_def)
    then show ?thesis using False Cons.IH[OF b] by (simp add: Let_def)
  qed
qed

lemma gls_cong:
  assumes "agree_on e1 e2 (fst (getLabelSelectorLogs e1 sel ns i c))"
  shows "getLabelSelectorLogs e2 sel ns i c = getLabelSelectorLogs e1 sel ns i c"
proof -
  obtain rest where r: "fst (getLabelSelectorLogs e1 sel ns i c) = (''kubectl'', podsArgs c ns sel) # rest"
    using gls_first_call by blast
  then have l: "exec e2 ''kubectl'' (podsArgs c ns sel) = exec e1 ''kubectl'' (podsArgs c ns sel)"
    using assms by (simp add: agree_on_Cons)
  show ?thesis
  proof (cases "exec e1 ''kubectl'' (podsArgs c ns sel)")
    case (Inl err)
    then show ?thesis using l by (simp add: gls_error)
  next
    case (Inr out)
    show ?thesis
    proof (cases "trim out = []")
      case True
      then show ?thesis using Inr l by (simp add: gls_none)
    next
      case False
      let ?pods = "split_str (CHR '' '') (trim out)"
      have "agree_on e1 e2 (fst (fetchPods e1 c ns i ?pods []))"
        using assms gls_some[OF Inr False, of i] by (simp add: agree_on_Cons fetchPods_calls)
      then have "fetchPods e2 c ns i ?pods [] = fetchPods e1 c ns i ?pods []"
        by (rule fetchPods_cong)
      moreover have "exec e2 ''kubectl'' (podsArgs c ns sel) = Inr out" using Inr l by simp
      ultimately show ?thesis
        using gls_some[OF Inr False, of i] gls_some[of e2 c ns sel out i] False by simp
    qed
  qed
qed

lemma fetchJobs_cong:
  "agree_on e1 e2 (fst (fetchJobs e1 c ns i jobs m)) \<Longrightarrow>
   fetchJobs e2 c ns i jobs m = fetchJobs e1 c ns i jobs m"
proof (induction jobs arbitrary: m)
  case Nil
  then show ?case by simp
next
  case (Cons j js)
  let ?g = "getLabelSelectorLogs e1 (''job-name='' @ j) ns i c"
  let ?m = "js_set m j (get_prop (content_text (snd ?g)) ''logs'')"
  have a: "agree_on e1 e2 (fst ?g)" and b: "agree_on e1 e2 (fst (fetchJobs e1 c ns i js ?m))"
    using Cons.prems by (simp_all add: Let_def case_prod_beta agree_on_append)
  have "getLabelSelectorLogs e2 (''job-name='' @ j) ns i c = ?g"
    using a by (rule gls_cong)
  then show ?case using Cons.IH[OF b] by (simp add: Let_def case_prod_beta)
qed

lemma deploymentSelector_cong:
  "json_parse e2 = json_parse e1 \<Longrightarrow> deploymentSelector e2 out = deploymentSelector e1 out"
  by (simp add: deploymentSelector_def)

subsection \<open>Evaluated runs\<close>

lemma web_pods_run:
  "getLabelSelectorLogs web_pods_env ''app=web'' ''default'' selector_request ''dev'' =
     ([(''kubectl'', podsArgs ''dev'' ''default'' ''app=web''),
       (''kubectl'', [''--context'', ''dev'', ''-n'', ''default'', ''logs'', ''web-1'']),
       (''kubectl'', [''--context'', ''dev'', ''-n'', ''default'', ''logs'', ''web-2''])],
      \<lparr>content_text = JObj [(''selector'', JStr ''app=web''), (''namespace'', JStr ''default''),
         (''logs'', JObj [(''web-1'', JStr ''ready''),
                         (''web-2'', JStr ''Error: container is waiting to start'')])],
       isError = False\<rparr>)"
  by code_simp

lemma nightly_lower: "toLowerCase (resourceType nightly_request) = ''cronjob''"
  by code_simp

lemma nightly_fields:
  "''prod'' = (if namespace nightly_request = [] then ''default'' else namespace nightly_request)"
  "''dev'' = kcontext nightly_request"
  "name nightly_request = ''nightly''"
  by (simp_all add: nightly_request_def request0_def)

lemma nightly_jobs:
  "exec nightly_env ''kubectl'' (jobsArgs ''dev'' ''prod'' ''nightly'') = Inr ''nightly-1 nightly-2''"
  "[''nightly-1'', ''nightly-2''] = split_str (CHR '' '') (trim ''nightly-1 nightly-2'')"
  by (simp add: nightly_env_def, code_simp)

lemma nightly_stage_1:
  "getLabelSelectorLogs nightly_env (''job-name='' @ ''nightly-1'') ''prod'' nightly_request ''dev'' =
     ([(''kubectl'', podsArgs ''dev'' ''prod'' ''job-name=nightly-1''),
       (''kubectl'', [''--context'', ''dev'', ''-n'', ''prod'', ''logs'', ''nightly-1-abcde''])],
      \<lparr>content_text = JObj [(''selector'', JStr ''job-name=nightly-1''), (''namespace'', JStr ''prod''),
         (''logs'', JObj [(''nightly-1-abcde'', JStr ''done'')])],
       isError = False\<rparr>)"
  by code_simp

lemma nightly_stage_2:
  "getLabelSelectorLogs nightly_env (''job-name='' @ ''nightly-2'') ''prod'' nightly_request ''dev'' =
     ([(''kubectl'', podsArgs ''dev'' ''prod'' ''job-name=nightly-2'')],
      \<lparr>content_text = JObj [(''message'', JStr (''No pods found with label selector ''
          @ [CHR 0x22] @ ''job-name=nightly-2'' @ [CHR 0x22] @ '' in namespace prod''))],
       isError = False\<rparr>)"
  by code_simp

lemma deploy_fields:
  "toLowerCase (resourceType deploy_request) = ''deployment''"
  "''prod'' = (if namespace deploy_request = [] then ''default'' else namespace deploy_request)"
  "''dev'' = kcontext deploy_request"
  "name deploy_request = ''web''"
  by (code_simp, simp_all add: deploy_request_def request0_def)

lemma deploy_stage:
  "snd (getLabelSelectorLogs deploy_env ''app=x,tier=web'' ''prod'' deploy_request ''dev'') =
     \<lparr>content_text = JObj [(''selector'', JStr ''app=x,tier=web''), (''namespace'', JStr ''prod''),
        (''logs'', JObj [(''web-5d9c'', JStr ''serving'')])],
      isError = False\<rparr>"
  by code_simp

lemma refused_plain:
  "\<not> str_includes refused_message ''not found''"
  "\<not> str_includes refused_message ''a container name must be specified''"
  by code_simp+

lemma ambiguous_parts:
  "status \<lparr>status = Some 1, message = ambiguous_message\<rparr> \<noteq> Some 404"
  "\<not> str_includes ambiguous_message ''not found''"
  "str_includes ambiguous_message ''a container name must be specified''"
  "ambiguous_message = message \<lparr>status = Some 1, message = ambiguous_message\<rparr>"
  "''web-1'' = (case podNameMatch ambiguous_message of Some p \<Rightarrow> p | None \<Rightarrow> ''unknown'')"
  "[''app'', ''sidecar''] = (case containersMatch ambiguous_message of
                         Some cap \<Rightarrow> map trim (split_str (CHR '' '') cap) | None \<Rightarrow> [])"
  "[''init''] = (case initContainersMatch ambiguous_message of
                             Some cap \<Rightarrow> map trim (split_str (CHR '' '') cap) | None \<Rightarrow> [])"
  by (simp, code_simp, code_simp, simp, code_simp, code_simp, code_simp)

lemma web_pods_calls:
  "fst (kubectlLogs web_pods_env selector_request) =
     [(''kubectl'', podsArgs ''dev'' ''default'' ''app=web''),
      (''kubectl'', [''--context'', ''dev'', ''-n'', ''default'', ''logs'', ''web-1'']),
      (''kubectl'', [''--context'', ''dev'', ''-n'', ''default'', ''logs'', ''web-2''])]"
  by code_simp

section \<open>The claims\<close>

text \<open>
  Claim C1, as amended. Let the listing name N pods, distinct, none empty and none the
  key \<^verbatim>\<open>__proto__\<close>. Then every pod is fetched once, in the listed order, whatever
  the other fetches did; the report is returned, not an error; its \<open>logs\<close> object has
  exactly N entries, one per pod; the entry of a fetch that failed is the string
  "Error: " followed by the failure's message, with no classification, and the entry of
  a fetch that succeeded is the raw log text; K entries belong to failed fetches and
  N - K to successful ones.
\<close>

theorem fan_out_entries:
  assumes listing: "exec e ''kubectl'' (podsArgs c ns sel) = Inr out"
    and pods: "pods = split_str (CHR '' '') (trim out)"
    and names: "distinct pods" "[] \<notin> set pods" "''__proto__'' \<notin> set pods"
    and r: "r = getLabelSelectorLogs e sel ns i c"
    and entries: "entries = obj_props (get_prop (content_text (snd r)) ''logs'')"
    and fetch: "fetch = (\<lambda>p. exec e ''kubectl'' (logsArgs c ns i p))"
  shows "fst r = (''kubectl'', podsArgs c ns sel) # map (\<lambda>p. (''kubectl'', logsArgs c ns i p)) pods
    \<and> \<not> isError (snd r)
    \<and> length entries = length pods \<and> distinct (map fst entries)
    \<and> set (map fst entries) = set pods
    \<and> (\<forall>p \<in> set pods. map_of entries p =
          Some (JStr (case fetch p of Inr logs \<Rightarrow> logs
                      | Inl err \<Rightarrow> ''Error: '' @ message err)))
    \<and> length (filter (\<lambda>kv. isl (fetch (fst kv))) entries) = length (filter (\<lambda>p. isl (fetch p)) pods)
    \<and> length (filter (\<lambda>kv. \<not> isl (fetch (fst kv))) entries)
        = length pods - length (filter (\<lambda>p. isl (fetch p)) pods)"
proof -
  have ne: "trim out \<noteq> []"
  proof
    assume "trim out = []"
    then have "pods = [[]]" using pods by simp
    then show False using names(2) by simp
  qed
  have all: "filter (\<lambda>p. p \<noteq> []) pods = pods"
    using names(2) by (induction pods) auto
  have e: "entries = snd (fetchPods e c ns i pods [])"
    using gls_some[OF listing ne, of i] r entries pods by (simp add: obj_props_def)
  have calls: "fst r = (''kubectl'', podsArgs c ns sel) # map (\<lambda>p. (''kubectl'', logsArgs c ns i p)) pods"
    using gls_some[OF listing ne, of i] r pods all by simp
  have ok: "\<not> isError (snd r)"
    using gls_some[OF listing ne, of i] r by simp
  have len: "length entries = length pods"
    unfolding e using names by (rule fetchPods_length)
  have dist: "distinct (map fst entries)"
    unfolding e by (rule fetchPods_distinct) simp
  have keys: "set (map fst entries) = set pods"
    unfolding e using names by (auto simp: fetchPods_keys)
  have vals: "\<forall>p \<in> set pods. map_of entries p =
          Some (JStr (case fetch p of Inr logs \<Rightarrow> logs
                      | Inl err \<Rightarrow> ''Error: '' @ message err))"
    unfolding e using names fetch by (auto simp: fetchPods_map_of fetchEntry_def)
  have k: "length (filter (\<lambda>kv. isl (fetch (fst kv))) entries) = length (filter (\<lambda>p. isl (fetch p)) pods)"
    using dist names(1) keys by (rule count_by_key)
  have "length (filter (\<lambda>kv. isl (fetch (fst kv))) entries)
          + length (filter (\<lambda>kv. \<not> isl (fetch (fst kv))) entries) = length entries"
    by (rule sum_length_filter_compl)
  then have nk: "length (filter (\<lambda>kv. \<not> isl (fetch (fst kv))) entries)
        = length pods - length (filter (\<lambda>p. isl (fetch p)) pods)"
    using k len by simp
  show ?thesis using calls ok len dist keys vals k nk by blast
qed

theorem fan_out_entries_witness:
  "split_str (CHR '' '') (trim ''web-1 web-2'') = [''web-1'', ''web-2'']
   \<and> isl (exec web_pods_env ''kubectl'' (logsArgs ''dev'' ''default'' selector_request ''web-2''))
   \<and> fst (getLabelSelectorLogs web_pods_env ''app=web'' ''default'' selector_request ''dev'') =
       [(''kubectl'', podsArgs ''dev'' ''default'' ''app=web''),
        (''kubectl'', logsArgs ''dev'' ''default'' selector_request ''web-1''),
        (''kubectl'', logsArgs ''dev'' ''default'' selector_request ''web-2'')]
   \<and> length (obj_props (get_prop (content_text (snd
         (getLabelSelectorLogs web_pods_env ''app=web'' ''default'' selector_request ''dev''))) ''logs'')) = 2
   \<and> map_of (obj_props (get_prop (content_text (snd
         (getLabelSelectorLogs web_pods_env ''app=web'' ''default'' selector_request ''dev''))) ''logs''))
         ''web-1'' = Some (JStr ''ready'')
   \<and> map_of (obj_props (get_prop (content_text (snd
         (getLabelSelectorLogs web_pods_env ''app=web'' ''default'' selector_request ''dev''))) ''logs''))
         ''web-2'' = Some (JStr ''Error: container is waiting to start'')
   \<and> length (filter
         (\<lambda>kv. isl (exec web_pods_env ''kubectl'' (logsArgs ''dev'' ''default'' selector_request (fst kv))))
         (obj_props (get_prop (content_text (snd
           (getLabelSelectorLogs web_pods_env ''app=web'' ''default'' selector_request ''dev''))) ''logs''))) = 1"
proof -
  have listing: "exec web_pods_env ''kubectl'' (podsArgs ''dev'' ''default'' ''app=web'') = Inr ''web-1 web-2''"
    by (simp add: web_pods_env_def)
  have pods: "[''web-1'', ''web-2''] = split_str (CHR '' '') (trim ''web-1 web-2'')"
    by code_simp
  have f1: "exec web_pods_env ''kubectl'' (logsArgs ''dev'' ''default'' selector_request ''web-1'') = Inr ''ready''"
    by code_simp
  have f2: "exec web_pods_env ''kubectl'' (logsArgs ''dev'' ''default'' selector_request ''web-2'')
              = Inl \<lparr>status = Some 1, message = ''container is waiting to start''\<rparr>"
    by code_simp
  have names: "distinct [''web-1'', ''web-2'']" "[] \<notin> set [''web-1'', ''web-2'']"
    "''__proto__'' \<notin> set [''web-1'', ''web-2'']"
    by simp_all
  note run = fan_out_entries[OF listing pods names refl refl refl, of selector_request]
  show ?thesis
    using run f1 f2 pods[symmetric] by simp
qed

text \<open>
  The claim as stated has the K failures classified. At a fan-out over the one pod
  \<^verbatim>\<open>web-1\<close> whose fetch fails for want of a container name, the entry is the plain
  string "Error: ..." while the classifier, on that very failure, answers
  \<^verbatim>\<open>multi_container_error\<close>.
\<close>

theorem fan_out_unclassified_counterexample:
  "get_prop (get_prop (content_text (snd
       (getLabelSelectorLogs ambiguous_env ''app=web'' ''prod'' request0 ''dev''))) ''logs'') ''web-1''
     = JStr (''Error: '' @ ambiguous_message)
   \<and> get_prop (content_text
         (handleCommandError \<lparr>status = Some 1, message = ambiguous_message\<rparr> ''pod web-1'')) ''status''
     = JStr ''multi_container_error''"
  by code_simp

text \<open>
  Claim C2, as amended. A failure that the not-found rule does not take and whose
  message contains "a container name must be specified" is classified
  \<^verbatim>\<open>multi_container_error\<close>. The pod name is the capture of the leftmost match of
  "for pod " and a run of characters other than the comma ("unknown" when nothing
  matches); the available containers are the capture of the leftmost match of
  "choose one of: [" ... "]", split at every space character, each piece trimmed
  (the empty list when nothing matches); the init containers are read the same way
  after "or one of the init containers: ["; the suggestion lists the available
  containers and, if there are any, the init containers. The witness is the message
  of the claim: pod \<^verbatim>\<open>web-1\<close>, containers \<^verbatim>\<open>app\<close> and \<^verbatim>\<open>sidecar\<close>, init
  container \<^verbatim>\<open>init\<close>.
\<close>

theorem multi_container_details:
  assumes "status err \<noteq> Some 404"
    and "\<not> str_includes msg ''not found''"
    and "str_includes msg ''a container name must be specified''"
    and "msg = message err"
    and "podName = (case podNameMatch msg of Some p \<Rightarrow> p | None \<Rightarrow> ''unknown'')"
    and "containers = (case containersMatch msg of
                         Some cap \<Rightarrow> map trim (split_str (CHR '' '') cap) | None \<Rightarrow> [])"
    and "initContainers = (case initContainersMatch msg of
                             Some cap \<Rightarrow> map trim (split_str (CHR '' '') cap) | None \<Rightarrow> [])"
  shows "handleCommandError err desc =
      \<lparr>content_text = JObj
         [(''error'', JStr ''Multi-container pod requires container specification''),
          (''status'', JStr ''multi_container_error''),
          (''pod_name'', JStr podName),
          (''available_containers'', JArr (map JStr containers)),
          (''init_containers'', JArr (map JStr initContainers)),
          (''suggestion'', JStr
             (''Please specify a container name using the 'container' parameter. Available containers: ''
              @ join_str '', '' containers
              @ (if initContainers = [] then []
                 else ''. Init containers: '' @ join_str '', '' initContainers)))],
       isError = True\<rparr>
    \<and> leftmost_capture ''for pod '' (CHR '','') False msg (podNameMatch msg)
    \<and> leftmost_capture ''choose one of: ['' (CHR '']'') True msg (containersMatch msg)
    \<and> leftmost_capture ''or one of the init containers: ['' (CHR '']'') True msg
          (initContainersMatch msg)"
proof -
  have c: "container_list (containersMatch msg) = containers"
    "container_list (initContainersMatch msg) = initContainers"
    using assms(6,7) by (simp_all add: container_list_def)
  have s: "suggestion_text containers initContainers =
     ''Please specify a container name using the 'container' parameter. Available containers: ''
              @ join_str '', '' containers
              @ (if initContainers = [] then []
                 else ''. Init containers: '' @ join_str '', '' initContainers)"
    by (simp add: suggestion_text_def)
  have "handleCommandError err desc =
      \<lparr>content_text = JObj
         [(''error'', JStr ''Multi-container pod requires container specification''),
          (''status'', JStr ''multi_container_error''),
          (''pod_name'', JStr podName),
          (''available_containers'', JArr (map JStr containers)),
          (''init_containers'', JArr (map JStr initContainers)),
          (''suggestion'', JStr (suggestion_text containers initContainers))],
       isError = True\<rparr>"
    using assms(1-5) c stringify_strs[of containers] stringify_strs[of initContainers]
    by (simp add: handleCommandError_def Let_def del: JSON_stringify.simps(6))
  then show ?thesis
    unfolding s
    by (simp add: podNameMatch_def containersMatch_def initContainersMatch_def regex_match_leftmost)
qed

theorem multi_container_details_witness:
  "str_includes ambiguous_message ''a container name must be specified''
   \<and> podNameMatch ambiguous_message = Some ''web-1''
   \<and> handleCommandError \<lparr>status = Some 1, message = ambiguous_message\<rparr> ''pod web-1'' =
      \<lparr>content_text = JObj
         [(''error'', JStr ''Multi-container pod requires container specification''),
          (''status'', JStr ''multi_container_error''),
          (''pod_name'', JStr ''web-1''),
          (''available_containers'', JArr [JStr ''app'', JStr ''sidecar'']),
          (''init_containers'', JArr [JStr ''init'']),
          (''suggestion'', JStr
             ''Please specify a container name using the 'container' parameter. Available containers: app, sidecar. Init containers: init'')],
       isError = True\<rparr>"
proof -
  have p: "podNameMatch ambiguous_message = Some ''web-1''" by code_simp
  note w = multi_container_details[OF ambiguous_parts, of "''pod web-1''"]
  from w p ambiguous_parts(3) show ?thesis by simp
qed

text \<open>
  The claim as stated splits the list on whitespace. A tab is whitespace, and the list
  \<^verbatim>\<open>[app<TAB>sidecar]\<close> is kept as the one name "app<TAB>sidecar".
\<close>

theorem tab_separated_counterexample:
  "is_white_space (CHR 0x09)
   \<and> get_prop (content_text
        (handleCommandError \<lparr>status = Some 1, message = tab_message\<rparr> ''pod web-1''))
        ''available_containers''
     = JArr [JStr (''app'' @ [CHR 0x09] @ ''sidecar'')]"
  by code_simp

text \<open>
  Claim C3. Whatever the resource description, a failure whose status is 404 or whose
  message contains "not found" is classified \<^verbatim>\<open>not_found\<close>, with the message
  "Resource <description> not found". Nothing is asked about the multi-container
  marker: the rule comes first.
\<close>

theorem not_found_priority:
  assumes "status err = Some 404 \<or> str_includes (message err) ''not found''"
  shows "handleCommandError err desc =
           \<lparr>content_text = JObj [(''error'', JStr (''Resource '' @ desc @ '' not found'')),
                                 (''status'', JStr ''not_found'')],
            isError = True\<rparr>"
  using assms by (simp add: handleCommandError_def)

theorem not_found_priority_witness:
  "str_includes both_markers ''a container name must be specified''
   \<and> handleCommandError \<lparr>status = Some 1, message = both_markers\<rparr> ''cronjob nightly'' =
       \<lparr>content_text = JObj [(''error'', JStr ''Resource cronjob nightly not found''),
                             (''status'', JStr ''not_found'')],
        isError = True\<rparr>"
proof -
  have a: "str_includes both_markers ''not found''"
    by (simp add: both_markers_def str_includes_def sublist_code)
  have b: "str_includes both_markers ''a container name must be specified''"
    by (simp add: both_markers_def str_includes_def sublist_code)
  show ?thesis
    using not_found_priority[of "\<lparr>status = Some 1, message = both_markers\<rparr>" "''cronjob nightly''"] a b
    by simp
qed

text \<open>
  Claim C4. When the listing succeeds and names no pod (no piece of the trimmed output,
  split at spaces, is non-empty), the report is the message "No pods found with label
  selector "<selector>" in namespace <namespace>", not an error and with no \<open>logs\<close>
  map, and no fetch is attempted. The empty output is such a listing: it splits into
  the one empty piece, which is not taken for a pod.
\<close>

theorem no_pods_message:
  assumes "exec e ''kubectl'' (podsArgs c ns sel) = Inr out"
    and "filter (\<lambda>p. p \<noteq> []) (split_str (CHR '' '') (trim out)) = []"
  shows "getLabelSelectorLogs e sel ns i c =
           ([(''kubectl'', podsArgs c ns sel)],
            \<lparr>content_text = JObj [(''message'', JStr (''No pods found with label selector ''
                @ [CHR 0x22] @ sel @ [CHR 0x22] @ '' in namespace '' @ ns))],
             isError = False\<rparr>)"
proof -
  have "trim out = []" using assms(2) by (simp only: names_empty_iff)
  with assms(1) show ?thesis by (rule gls_none)
qed

theorem no_pods_message_witness:
  "split_str (CHR '' '') (trim []) = [[]]
   \<and> getLabelSelectorLogs silent_env ''app=web'' ''prod'' request0 ''dev'' =
       ([(''kubectl'', podsArgs ''dev'' ''prod'' ''app=web'')],
        \<lparr>content_text = JObj [(''message'', JStr (''No pods found with label selector ''
            @ [CHR 0x22] @ ''app=web'' @ [CHR 0x22] @ '' in namespace prod''))],
         isError = False\<rparr>)"
proof -
  have a: "exec silent_env ''kubectl'' (podsArgs ''dev'' ''prod'' ''app=web'') = Inr []"
    by (simp add: silent_env_def)
  have b: "filter (\<lambda>p. p \<noteq> []) (split_str (CHR '' '') (trim [])) = []"
    by (simp add: trim_def)
  show ?thesis
    using no_pods_message[OF a b, of request0] by (simp add: trim_def)
qed

text \<open>
  Claim C5, as amended. For a deployment the tool reads the deployment's match-labels.
  When the payload parses to an object of string labels, the selector is the labels
  rendered \<^verbatim>\<open>key=value\<close>, in the object's order, joined by commas with no spaces, and
  the pod listing is invoked with exactly that selector; the labels
  \<^verbatim>\<open>{app: "x", tier: "web"}\<close> give \<^verbatim>\<open>app=x,tier=web\<close>. When the read fails or the
  payload does not parse, no pod is listed and the request returns the classifier's
  answer for that failure, described as "deployment <name>": \<^verbatim>\<open>general_error\<close>
  only if the failure is neither a not-found nor a multi-container one.
\<close>

theorem deployment_resolution:
  assumes "toLowerCase (resourceType inp) = ''deployment''"
    and "ns = (if namespace inp = [] then ''default'' else namespace inp)"
    and "c = kcontext inp"
    and "read = exec e ''kubectl'' (selectorArgs c ns (name inp))"
  shows "(\<forall>out labels. read = Inr out
            \<and> json_parse e (replace_quotes (trim out))
                = Inr (JObj (map (\<lambda>kv. (fst kv, JStr (snd kv))) labels)) \<longrightarrow>
          (\<exists>rest. fst (kubectlLogs e inp) =
              (''kubectl'', selectorArgs c ns (name inp))
                # (''kubectl'', podsArgs c ns (join_str '','' (map (\<lambda>kv. fst kv @ ''='' @ snd kv) labels)))
                # rest)
          \<and> snd (kubectlLogs e inp) =
              Inr (snd (getLabelSelectorLogs e
                     (join_str '','' (map (\<lambda>kv. fst kv @ ''='' @ snd kv) labels)) ns inp c)))
    \<and> (\<forall>err. read = Inl err
            \<or> (\<exists>out. read = Inr out \<and> json_parse e (replace_quotes (trim out)) = Inl err) \<longrightarrow>
          kubectlLogs e inp =
            ([(''kubectl'', selectorArgs c ns (name inp))],
             Inr (handleCommandError err (''deployment '' @ name inp)))
          \<and> (status err \<noteq> Some 404 \<and> \<not> str_includes (message err) ''not found''
               \<and> \<not> str_includes (message err) ''a container name must be specified'' \<longrightarrow>
             get_prop (content_text (handleCommandError err (''deployment '' @ name inp))) ''status''
               = JStr ''general_error''))"
proof -
  have ok: "(\<exists>rest. fst (kubectlLogs e inp) =
              (''kubectl'', selectorArgs c ns (name inp))
                # (''kubectl'', podsArgs c ns (join_str '','' (map (\<lambda>kv. fst kv @ ''='' @ snd kv) labels)))
                # rest)
          \<and> snd (kubectlLogs e inp) =
              Inr (snd (getLabelSelectorLogs e
                     (join_str '','' (map (\<lambda>kv. fst kv @ ''='' @ snd kv) labels)) ns inp c))"
    if "read = Inr out"
      "json_parse e (replace_quotes (trim out)) = Inr (JObj (map (\<lambda>kv. (fst kv, JStr (snd kv))) labels))"
    for out labels
  proof -
    let ?sel = "join_str '','' (map (\<lambda>kv. fst kv @ ''='' @ snd kv) labels)"
    have s: "deploymentSelector e out = Inr ?sel"
      using that(2) by (simp add: deploymentSelector_def entry_strings_labels)
    have r: "exec e ''kubectl'' (selectorArgs (kcontext inp) ns (name inp)) = Inr out"
      using that(1) assms(3,4) by simp
    show ?thesis
      using deployment_resolved[OF assms(1,2) r s] gls_first_call[of e ?sel ns inp c] assms(3)
      by auto
  qed
  have bad: "kubectlLogs e inp =
            ([(''kubectl'', selectorArgs c ns (name inp))],
             Inr (handleCommandError err (''deployment '' @ name inp)))"
    if "read = Inl err
            \<or> (\<exists>out. read = Inr out \<and> json_parse e (replace_quotes (trim out)) = Inl err)"
    for err
  proof -
    have "exec e ''kubectl'' (selectorArgs (kcontext inp) ns (name inp)) = Inl err
         \<or> (\<exists>out. exec e ''kubectl'' (selectorArgs (kcontext inp) ns (name inp)) = Inr out
                \<and> deploymentSelector e out = Inl err)"
      using that assms(3,4) by (auto simp: deploymentSelector_def)
    from deployment_failed[OF assms(1,2) this] show ?thesis using assms(3) by simp
  qed
  have gen: "get_prop (content_text (handleCommandError err d)) ''status'' = JStr ''general_error''"
    if "status err \<noteq> Some 404" "\<not> str_includes (message err) ''not found''"
       "\<not> str_includes (message err) ''a container name must be specified''" for err d
    using general_status[OF that] by simp
  show ?thesis using ok bad gen by blast
qed

theorem deployment_resolution_witness:
  "join_str '','' (map (\<lambda>kv. fst kv @ ''='' @ snd kv) [(''app'', ''x''), (''tier'', ''web'')])
     = ''app=x,tier=web''
   \<and> (\<exists>rest. fst (kubectlLogs deploy_env deploy_request) =
          (''kubectl'', selectorArgs ''dev'' ''prod'' ''web'')
            # (''kubectl'', podsArgs ''dev'' ''prod'' ''app=x,tier=web'') # rest)
   \<and> snd (kubectlLogs deploy_env deploy_request) =
       Inr \<lparr>content_text = JObj [(''selector'', JStr ''app=x,tier=web''),
              (''namespace'', JStr ''prod''),
              (''logs'', JObj [(''web-5d9c'', JStr ''serving'')])],
            isError = False\<rparr>
   \<and> kubectlLogs refused_env deploy_request =
       ([(''kubectl'', selectorArgs ''dev'' ''prod'' ''web'')],
        Inr (handleCommandError \<lparr>status = Some 1, message = refused_message\<rparr> ''deployment web''))
   \<and> get_prop (content_text
         (handleCommandError \<lparr>status = Some 1, message = refused_message\<rparr> ''deployment web''))
         ''status'' = JStr ''general_error''"
proof -
  have j: "join_str '','' (map (\<lambda>kv. fst kv @ ''='' @ snd kv) [(''app'', ''x''), (''tier'', ''web'')])
     = ''app=x,tier=web''"
    by simp
  have rd: "exec deploy_env ''kubectl'' (selectorArgs ''dev'' ''prod'' ''web'') = Inr ''{'app':'x','tier':'web'}''"
    by (simp add: deploy_env_def)
  have tr: "trim ''{'app':'x','tier':'web'}'' = ''{'app':'x','tier':'web'}''"
    by code_simp
  have ps: "json_parse deploy_env (replace_quotes (trim ''{'app':'x','tier':'web'}''))
      = Inr (JObj (map (\<lambda>kv. (fst kv, JStr (snd kv))) [(''app'', ''x''), (''tier'', ''web'')]))"
    unfolding tr by (simp add: deploy_env_def)
  note a = deployment_resolution[OF deploy_fields(1,2,3) refl, of deploy_env, unfolded deploy_fields(4)]
  note b = deployment_resolution[OF deploy_fields(1,2,3) refl, of refused_env, unfolded deploy_fields(4)]
  have rf: "exec refused_env ''kubectl'' (selectorArgs ''dev'' ''prod'' ''web'')
              = Inl \<lparr>status = Some 1, message = refused_message\<rparr>"
    by (simp add: refused_env_def)
  from a rd ps have 1: "(\<exists>rest. fst (kubectlLogs deploy_env deploy_request) =
          (''kubectl'', selectorArgs ''dev'' ''prod'' ''web'')
            # (''kubectl'', podsArgs ''dev'' ''prod''
                 (join_str '','' (map (\<lambda>kv. fst kv @ ''='' @ snd kv) [(''app'', ''x''), (''tier'', ''web'')]))) # rest)
      \<and> snd (kubectlLogs deploy_env deploy_request) =
          Inr (snd (getLabelSelectorLogs deploy_env
             (join_str '','' (map (\<lambda>kv. fst kv @ ''='' @ snd kv) [(''app'', ''x''), (''tier'', ''web'')]))
             ''prod'' deploy_request ''dev''))"
    by blast
  from b rf have 2: "kubectlLogs refused_env deploy_request =
       ([(''kubectl'', selectorArgs ''dev'' ''prod'' ''web'')],
        Inr (handleCommandError \<lparr>status = Some 1, message = refused_message\<rparr> ''deployment web''))
     \<and> get_prop (content_text
         (handleCommandError \<lparr>status = Some 1, message = refused_message\<rparr> ''deployment web''))
         ''status'' = JStr ''general_error''"
    using refused_plain by auto
  show ?thesis using 1 2 deploy_stage unfolding j by simp
qed

text \<open>
  The claim as stated has every failed read classified general. A deployment that does
  not exist makes the read fail with a "not found" message, and the request returns
  \<^verbatim>\<open>not_found\<close>.
\<close>

theorem deployment_missing_counterexample:
  "kubectlLogs missing_env deploy_request =
     ([(''kubectl'', selectorArgs ''dev'' ''prod'' ''web'')],
      Inr \<lparr>content_text = JObj [(''error'', JStr ''Resource deployment web not found''),
                                (''status'', JStr ''not_found'')],
           isError = True\<rparr>)"
  by code_simp

text \<open>
  Claim C6. For a cronjob whose job listing (selector \<^verbatim>\<open>job-name=<name>\<close> on the jobs
  collection) succeeds: if the listing names no job, the request ends there with the
  report "No jobs found for cronjob <name> in namespace <namespace>", not an error,
  and the listing is the only process invoked; otherwise the single-level stage runs
  once per listed job, in order, on the selector \<^verbatim>\<open>job-name=<job>\<close>, and the \<open>jobs\<close>
  object of the report holds under each job's key the \<open>logs\<close> field of that job's
  single-level result (the key \<^verbatim>\<open>__proto__\<close> apart).
\<close>

theorem cronjob_resolution:
  assumes "toLowerCase (resourceType inp) = ''cronjob''"
    and "ns = (if namespace inp = [] then ''default'' else namespace inp)"
    and "c = kcontext inp"
    and "exec e ''kubectl'' (jobsArgs c ns (name inp)) = Inr out"
    and "jobs = split_str (CHR '' '') (trim out)"
  shows "(filter (\<lambda>job. job \<noteq> []) jobs = [] \<longrightarrow>
            kubectlLogs e inp =
              ([(''kubectl'', jobsArgs c ns (name inp))],
               Inr \<lparr>content_text = JObj [(''message'', JStr (''No jobs found for cronjob ''
                        @ name inp @ '' in namespace '' @ ns))],
                    isError = False\<rparr>))
    \<and> (filter (\<lambda>job. job \<noteq> []) jobs \<noteq> [] \<longrightarrow>
          fst (kubectlLogs e inp) =
            (''kubectl'', jobsArgs c ns (name inp))
              # concat (map (\<lambda>job. fst (getLabelSelectorLogs e (''job-name='' @ job) ns inp c)) jobs)
          \<and> (\<exists>doc. snd (kubectlLogs e inp) =
                 Inr \<lparr>content_text = JObj [(''cronjob'', JStr (name inp)), (''namespace'', JStr ns),
                                           (''jobs'', JObj doc)],
                      isError = False\<rparr>
               \<and> (\<forall>job \<in> set jobs. job \<noteq> ''__proto__'' \<longrightarrow>
                     get_prop (JObj doc) job = jobLogs e c ns inp job)))"
proof (cases "trim out = []")
  case True
  then have "filter (\<lambda>job. job \<noteq> []) jobs = []" using assms(5) by simp
  then show ?thesis
    using cronjob_none[OF assms(1,2) assms(4)[unfolded assms(3)] True] assms(3) by simp
next
  case False
  then have ne: "filter (\<lambda>job. job \<noteq> []) jobs \<noteq> []"
    using assms(5) names_empty_iff[of out] by simp
  let ?all = "snd (fetchJobs e c ns inp jobs [])"
  let ?doc = "filter (\<lambda>kv. snd kv \<noteq> JUndefined) ?all"
  note run = cronjob_some[OF assms(1,2) assms(4)[unfolded assms(3)] False assms(5), folded assms(3)]
  have d: "distinct (map fst ?all)" by (rule fetchJobs_distinct) simp
  have "get_prop (JObj ?doc) job = jobLogs e c ns inp job"
    if "job \<in> set jobs" "job \<noteq> ''__proto__''" for job
    using that by (simp add: map_of_filter_distinct[OF d] fetchJobs_map_of)
  then show ?thesis using ne run by auto
qed

theorem cronjob_resolution_witness:
  "kubectlLogs silent_env nightly_request =
     ([(''kubectl'', jobsArgs ''dev'' ''prod'' ''nightly'')],
      Inr \<lparr>content_text = JObj [(''message'', JStr ''No jobs found for cronjob nightly in namespace prod'')],
           isError = False\<rparr>)
   \<and> fst (kubectlLogs nightly_env nightly_request) =
       [(''kubectl'', jobsArgs ''dev'' ''prod'' ''nightly''),
        (''kubectl'', podsArgs ''dev'' ''prod'' ''job-name=nightly-1''),
        (''kubectl'', [''--context'', ''dev'', ''-n'', ''prod'', ''logs'', ''nightly-1-abcde'']),
        (''kubectl'', podsArgs ''dev'' ''prod'' ''job-name=nightly-2'')]
   \<and> (\<exists>doc. snd (kubectlLogs nightly_env nightly_request) =
          Inr \<lparr>content_text = JObj [(''cronjob'', JStr ''nightly''), (''namespace'', JStr ''prod''),
                                    (''jobs'', JObj doc)],
               isError = False\<rparr>
        \<and> get_prop (JObj doc) ''nightly-1'' = JObj [(''nightly-1-abcde'', JStr ''done'')])"
proof -
  have quiet: "exec silent_env ''kubectl'' (jobsArgs ''dev'' (''prod'') (name nightly_request)) = Inr []"
    by (simp add: silent_env_def)
  have none: "[[]] = split_str (CHR '' '') (trim [])" by (simp add: trim_def)
  note a = cronjob_resolution[OF nightly_lower nightly_fields(1,2) quiet none]
  have listing: "exec nightly_env ''kubectl'' (jobsArgs ''dev'' ''prod'' (name nightly_request)) = Inr ''nightly-1 nightly-2''"
    using nightly_jobs(1) by (simp add: nightly_fields(3))
  note b = cronjob_resolution[OF nightly_lower nightly_fields(1,2) listing nightly_jobs(2)]
  have j1: "jobLogs nightly_env ''dev'' ''prod'' nightly_request ''nightly-1''
              = JObj [(''nightly-1-abcde'', JStr ''done'')]"
    unfolding jobLogs_def nightly_stage_1 by simp
  from a have 1: "kubectlLogs silent_env nightly_request =
     ([(''kubectl'', jobsArgs ''dev'' ''prod'' ''nightly'')],
      Inr \<lparr>content_text = JObj [(''message'', JStr ''No jobs found for cronjob nightly in namespace prod'')],
           isError = False\<rparr>)"
    by (simp add: nightly_fields(3))
  from b have 2: "fst (kubectlLogs nightly_env nightly_request) =
       [(''kubectl'', jobsArgs ''dev'' ''prod'' ''nightly''),
        (''kubectl'', podsArgs ''dev'' ''prod'' ''job-name=nightly-1''),
        (''kubectl'', [''--context'', ''dev'', ''-n'', ''prod'', ''logs'', ''nightly-1-abcde'']),
        (''kubectl'', podsArgs ''dev'' ''prod'' ''job-name=nightly-2'')]"
    using nightly_stage_1 nightly_stage_2 by (simp add: nightly_fields(3))
  from b have 3: "\<exists>doc. snd (kubectlLogs nightly_env nightly_request) =
          Inr \<lparr>content_text = JObj [(''cronjob'', JStr ''nightly''), (''namespace'', JStr ''prod''),
                                    (''jobs'', JObj doc)],
               isError = False\<rparr>
        \<and> get_prop (JObj doc) ''nightly-1'' = JObj [(''nightly-1-abcde'', JStr ''done'')]"
    using j1 by (auto simp: nightly_fields(3))
  from 1 2 3 show ?thesis by blast
qed

text \<open>
  Claim C7. A request whose resource type, in lower case, is none of pod, deployment,
  job and cronjob, and which carries no label selector (so it is no label group
  either), fails with the \<^verbatim>\<open>McpError\<close> "Unsupported resource type", and no process
  has been invoked.
\<close>

theorem unsupported_type_no_call:
  assumes "toLowerCase (resourceType inp) \<notin> {''pod'', ''deployment'', ''job'', ''cronjob''}"
    and "\<not> truthy (labelSelector inp)"
  shows "kubectlLogs e inp =
           ([], Inl (McpError InvalidRequest
                       (''Unsupported resource type: '' @ toLowerCase (resourceType inp))))"
  using assms by (auto simp: kubectlLogs_def Let_def truthy_def split: option.splits)

theorem unsupported_type_no_call_witness:
  "toLowerCase (resourceType (request0\<lparr>resourceType := ''Service''\<rparr>)) = ''service''
   \<and> kubectlLogs silent_env (request0\<lparr>resourceType := ''Service''\<rparr>) =
       ([], Inl (McpError InvalidRequest ''Unsupported resource type: service''))"
proof -
  have lc: "toLowerCase ''Service'' = ''service''" by code_simp
  show ?thesis
    using unsupported_type_no_call[of "request0\<lparr>resourceType := ''Service''\<rparr>" silent_env] lc
    by (simp add: request0_def truthy_def)
qed

text \<open>
  Claim C8. The report is a function of the request and of the answers to the command
  lines the run invokes: a second run in a world that answers each of those command
  lines as the first did (and parses alike) invokes the same processes in the same
  order and returns the same report, hence the same keys in the same order with the
  same kind of entry under each.
\<close>

theorem same_results_same_report:
  assumes "agree_on e1 e2 (fst (kubectlLogs e1 inp))"
    and "json_parse e2 = json_parse e1"
  shows "kubectlLogs e2 inp = kubectlLogs e1 inp"
proof -
  define rt where "rt = toLowerCase (resourceType inp)"
  define ns where "ns = (if namespace inp = [] then ''default'' else namespace inp)"
  define c where "c = kcontext inp"
  consider (pod) "rt = ''pod''" | (deployment) "rt = ''deployment''" | (job) "rt = ''job''"
    | (cronjob) "rt = ''cronjob''"
    | (other) "rt \<notin> {''pod'', ''deployment'', ''job'', ''cronjob''}"
    by auto
  then show ?thesis
  proof cases
    case pod
    then show ?thesis
      using assms(1) unfolding rt_def
      by (simp add: kubectlLogs_def Let_def agree_on_Cons)
  next
    case deployment
    let ?args = "selectorArgs c ns (name inp)"
    have d: "toLowerCase (resourceType inp) = ''deployment''" using deployment rt_def by simp
    have fst_call: "\<exists>rest. fst (kubectlLogs e1 inp) = (''kubectl'', ?args) # rest"
      using d unfolding ns_def c_def
      by (auto simp: kubectlLogs_def Let_def case_prod_beta split: sum.splits)
    then have l: "exec e2 ''kubectl'' ?args = exec e1 ''kubectl'' ?args"
      using assms(1) by (auto simp: agree_on_Cons)
    show ?thesis
    proof (cases "exec e1 ''kubectl'' ?args")
      case (Inl err)
      then show ?thesis using d l unfolding ns_def c_def by (simp add: kubectlLogs_def Let_def)
    next
      case (Inr out)
      note ds = deploymentSelector_cong[OF assms(2), of out]
      show ?thesis
      proof (cases "deploymentSelector e1 out")
        case bad: (Inl err)
        then show ?thesis using d l Inr ds unfolding ns_def c_def
          by (simp add: kubectlLogs_def Let_def)
      next
        case ok: (Inr sel)
        have r1: "kubectlLogs e1 inp =
           ((''kubectl'', selectorArgs (kcontext inp) ns (name inp))
              # fst (getLabelSelectorLogs e1 sel ns inp (kcontext inp)),
            Inr (snd (getLabelSelectorLogs e1 sel ns inp (kcontext inp))))"
          using Inr ok by (intro deployment_resolved[OF d ns_def]) (simp_all add: c_def)
        have r2: "kubectlLogs e2 inp =
           ((''kubectl'', selectorArgs (kcontext inp) ns (name inp))
              # fst (getLabelSelectorLogs e2 sel ns inp (kcontext inp)),
            Inr (snd (getLabelSelectorLogs e2 sel ns inp (kcontext inp))))"
          using Inr ok l ds by (intro deployment_resolved[OF d ns_def]) (simp_all add: c_def)
        have "agree_on e1 e2 (fst (getLabelSelectorLogs e1 sel ns inp (kcontext inp)))"
          using assms(1) r1 by (simp add: agree_on_Cons)
        then have "getLabelSelectorLogs e2 sel ns inp (kcontext inp)
                     = getLabelSelectorLogs e1 sel ns inp (kcontext inp)"
          by (rule gls_cong)
        then show ?thesis using r1 r2 by simp
      qed
    qed
  next
    case job
    have j: "toLowerCase (resourceType inp) = ''job''" using job rt_def by simp
    have r: "kubectlLogs e inp =
        (fst (getLabelSelectorLogs e (''job-name='' @ name inp) ns inp c),
         Inr (snd (getLabelSelectorLogs e (''job-name='' @ name inp) ns inp c)))" for e
      using j unfolding ns_def c_def by (simp add: kubectlLogs_def Let_def case_prod_beta)
    have "agree_on e1 e2 (fst (getLabelSelectorLogs e1 (''job-name='' @ name inp) ns inp c))"
      using assms(1) r[of e1] by simp
    then have "getLabelSelectorLogs e2 (''job-name='' @ name inp) ns inp c
                 = getLabelSelectorLogs e1 (''job-name='' @ name inp) ns inp c"
      by (rule gls_cong)
    then show ?thesis using r[of e1] r[of e2] by simp
  next
    case cronjob
    let ?args = "jobsArgs (kcontext inp) ns (name inp)"
    have cj: "toLowerCase (resourceType inp) = ''cronjob''" using cronjob rt_def by simp
    have fst_call: "\<exists>rest. fst (kubectlLogs e1 inp) = (''kubectl'', ?args) # rest"
      using cj unfolding ns_def
      by (auto simp: kubectlLogs_def Let_def case_prod_beta split: sum.splits)
    then have l: "exec e2 ''kubectl'' ?args = exec e1 ''kubectl'' ?args"
      using assms(1) by (auto simp: agree_on_Cons)
    show ?thesis
    proof (cases "exec e1 ''kubectl'' ?args")
      case (Inl err)
      then show ?thesis using l cronjob_error[OF cj ns_def, of _ err] by simp
    next
      case (Inr out)
      show ?thesis
      proof (cases "trim out = []")
        case True
        then show ?thesis using l Inr cronjob_none[OF cj ns_def, of _ out] by simp
      next
        case False
        let ?jobs = "split_str (CHR '' '') (trim out)"
        have r: "kubectlLogs e inp =
            ((''kubectl'', ?args) # fst (fetchJobs e (kcontext inp) ns inp ?jobs []),
             Inr \<lparr>content_text = JObj
                     [(''cronjob'', JStr (name inp)), (''namespace'', JStr ns),
                      (''jobs'', JObj (filter (\<lambda>kv. snd kv \<noteq> JUndefined)
                                   (snd (fetchJobs e (kcontext inp) ns inp ?jobs []))))],
                  isError = False\<rparr>)"
          if "exec e ''kubectl'' ?args = Inr out" for e
          by (simp add: cronjob_some[OF cj ns_def that False refl] fetchJobs_calls)
        have "agree_on e1 e2 (fst (fetchJobs e1 (kcontext inp) ns inp ?jobs []))"
          using assms(1) r[OF Inr] by (simp add: agree_on_Cons)
        then have "fetchJobs e2 (kcontext inp) ns inp ?jobs [] = fetchJobs e1 (kcontext inp) ns inp ?jobs []"
          by (rule fetchJobs_cong)
        then show ?thesis using r[OF Inr] r[of e2] l Inr by simp
      qed
    qed
  next
    case other
    have o: "toLowerCase (resourceType inp) \<notin> {''pod'', ''deployment'', ''job'', ''cronjob''}"
      using other rt_def by simp
    show ?thesis
    proof (cases "truthy (labelSelector inp)")
      case False
      then have "kubectlLogs e inp =
          ([], Inl (McpError InvalidRequest
                      (''Unsupported resource type: '' @ toLowerCase (resourceType inp))))" for e
        using o by (auto simp: kubectlLogs_def Let_def truthy_def split: option.splits)
      then show ?thesis by simp
    next
      case True
      then obtain sel where s: "labelSelector inp = Some sel" "sel \<noteq> []"
        by (auto simp: truthy_def split: option.splits)
      have r: "kubectlLogs e inp =
            (fst (getLabelSelectorLogs e sel ns inp (kcontext inp)),
             Inr (snd (getLabelSelectorLogs e sel ns inp (kcontext inp))))" for e
        using o s unfolding ns_def by (auto simp: kubectlLogs_def Let_def case_prod_beta)
      have "agree_on e1 e2 (fst (getLabelSelectorLogs e1 sel ns inp (kcontext inp)))"
        using assms(1) r[of e1] by simp
      then have "getLabelSelectorLogs e2 sel ns inp (kcontext inp)
                   = getLabelSelectorLogs e1 sel ns inp (kcontext inp)"
        by (rule gls_cong)
      then show ?thesis using r[of e1] r[of e2] by simp
    qed
  qed
qed

theorem same_results_same_report_witness:
  "exec other_env ''helm'' [] \<noteq> exec web_pods_env ''helm'' []
   \<and> agree_on web_pods_env other_env (fst (kubectlLogs web_pods_env selector_request))
   \<and> kubectlLogs other_env selector_request = kubectlLogs web_pods_env selector_request"
proof -
  have d: "exec other_env ''helm'' [] \<noteq> exec web_pods_env ''helm'' []"
    by (simp add: other_env_def web_pods_env_def)
  have a: "agree_on web_pods_env other_env (fst (kubectlLogs web_pods_env selector_request))"
    unfolding web_pods_calls by (simp add: agree_on_def other_env_def)
  have p: "json_parse other_env = json_parse web_pods_env"
    by (simp add: other_env_def)
  from same_results_same_report[OF a p] d a show ?thesis by simp
qed

text \<open>
  Claim C9. In a cronjob report, a job whose pod listing succeeds and names no pod has
  the "No pods found" message as its single-level result, which has no \<open>logs\<close> field:
  \<open>allJobLogs\<close> holds undefined under the job's key, and the JSON document of the
  report has no entry for that job.
\<close>

theorem cronjob_job_without_pods:
  assumes "toLowerCase (resourceType inp) = ''cronjob''"
    and "ns = (if namespace inp = [] then ''default'' else namespace inp)"
    and "c = kcontext inp"
    and "exec e ''kubectl'' (jobsArgs c ns (name inp)) = Inr out"
    and "trim out \<noteq> []"
    and "jobs = split_str (CHR '' '') (trim out)"
    and "job \<in> set jobs" and "job \<noteq> ''__proto__''"
    and "exec e ''kubectl'' (podsArgs c ns (''job-name='' @ job)) = Inr pout"
    and "trim pout = []"
  shows "content_text (snd (getLabelSelectorLogs e (''job-name='' @ job) ns inp c)) =
           JObj [(''message'', JStr (''No pods found with label selector ''
              @ [CHR 0x22] @ ''job-name='' @ job @ [CHR 0x22] @ '' in namespace '' @ ns))]
    \<and> map_of (snd (fetchJobs e c ns inp jobs [])) job = Some JUndefined
    \<and> (\<exists>doc. snd (kubectlLogs e inp) =
           Inr \<lparr>content_text = JObj [(''cronjob'', JStr (name inp)), (''namespace'', JStr ns),
                                     (''jobs'', JObj doc)],
                isError = False\<rparr>
         \<and> map_of doc job = None)"
proof -
  let ?all = "snd (fetchJobs e c ns inp jobs [])"
  let ?doc = "filter (\<lambda>kv. snd kv \<noteq> JUndefined) ?all"
  have env: "getLabelSelectorLogs e (''job-name='' @ job) ns inp c =
          ([(''kubectl'', podsArgs c ns (''job-name='' @ job))],
           \<lparr>content_text = JObj [(''message'', JStr (''No pods found with label selector ''
              @ [CHR 0x22] @ (''job-name='' @ job) @ [CHR 0x22] @ '' in namespace '' @ ns))],
            isError = False\<rparr>)"
    using assms(9,10) by (rule gls_none)
  have u: "jobLogs e c ns inp job = JUndefined"
    using env by (simp add: jobLogs_def)
  have a: "map_of ?all job = Some JUndefined"
    using assms(7,8) u by (simp add: fetchJobs_map_of)
  have d: "distinct (map fst ?all)" by (rule fetchJobs_distinct) simp
  have b: "map_of ?doc job = None"
    using a by (simp add: map_of_filter_distinct[OF d])
  note run = cronjob_some[OF assms(1,2) assms(4)[unfolded assms(3)] assms(5,6), folded assms(3)]
  show ?thesis using env a b run by simp
qed

theorem cronjob_job_without_pods_witness:
  "content_text (snd (getLabelSelectorLogs nightly_env ''job-name=nightly-2'' ''prod'' nightly_request ''dev'')) =
      JObj [(''message'', JStr (''No pods found with label selector ''
          @ [CHR 0x22] @ ''job-name=nightly-2'' @ [CHR 0x22] @ '' in namespace prod''))]
   \<and> map_of (snd (fetchJobs nightly_env ''dev'' ''prod'' nightly_request [''nightly-1'', ''nightly-2''] []))
        ''nightly-2'' = Some JUndefined
   \<and> (\<exists>doc. snd (kubectlLogs nightly_env nightly_request) =
          Inr \<lparr>content_text = JObj [(''cronjob'', JStr ''nightly''), (''namespace'', JStr ''prod''),
                                    (''jobs'', JObj doc)],
               isError = False\<rparr>
        \<and> map_of doc ''nightly-2'' = None)"
proof -
  have listing: "exec nightly_env ''kubectl'' (jobsArgs ''dev'' ''prod'' (name nightly_request)) = Inr ''nightly-1 nightly-2''"
    using nightly_jobs(1) by (simp add: nightly_fields(3))
  have ne: "trim ''nightly-1 nightly-2'' \<noteq> []" by code_simp
  have mem: "''nightly-2'' \<in> set [''nightly-1'', ''nightly-2'']" "''nightly-2'' \<noteq> ''__proto__''"
    by simp_all
  have pods: "exec nightly_env ''kubectl'' (podsArgs ''dev'' ''prod'' (''job-name='' @ ''nightly-2'')) = Inr []"
    by code_simp
  have t: "trim [] = []" by (simp add: trim_def)
  note w = cronjob_job_without_pods[OF nightly_lower nightly_fields(1,2) listing ne nightly_jobs(2) mem pods t]
  then show ?thesis by (simp add: nightly_fields(3))
qed

text \<open>
  Claim C10. For a resource type that, in lower case, is none of pod, deployment, job
  and cronjob, the request fails exactly when the label selector is absent or empty;
  with a non-empty selector it is the single-level stage run on that selector verbatim,
  whose report is \<^verbatim>\<open>{selector, namespace, logs}\<close> when the listing names a pod.
\<close>

theorem label_selector_fallback:
  assumes "toLowerCase (resourceType inp) \<notin> {''pod'', ''deployment'', ''job'', ''cronjob''}"
    and "ns = (if namespace inp = [] then ''default'' else namespace inp)"
  shows "(isl (snd (kubectlLogs e inp)) \<longleftrightarrow> \<not> truthy (labelSelector inp))
    \<and> (\<forall>sel. labelSelector inp = Some sel \<and> sel \<noteq> [] \<longrightarrow>
          kubectlLogs e inp =
            (fst (getLabelSelectorLogs e sel ns inp (kcontext inp)),
             Inr (snd (getLabelSelectorLogs e sel ns inp (kcontext inp))))
          \<and> (\<forall>out. exec e ''kubectl'' (podsArgs (kcontext inp) ns sel) = Inr out
                 \<and> trim out \<noteq> [] \<longrightarrow>
               (\<exists>logsMap. snd (kubectlLogs e inp) =
                   Inr \<lparr>content_text = JObj [(''selector'', JStr sel), (''namespace'', JStr ns),
                                             (''logs'', JObj logsMap)],
                        isError = False\<rparr>)))"
proof -
  have 1: "isl (snd (kubectlLogs e inp)) \<longleftrightarrow> \<not> truthy (labelSelector inp)"
    using assms(1)
    by (auto simp: kubectlLogs_def Let_def truthy_def case_prod_beta split: option.splits)
  have 2: "kubectlLogs e inp =
            (fst (getLabelSelectorLogs e sel ns inp (kcontext inp)),
             Inr (snd (getLabelSelectorLogs e sel ns inp (kcontext inp))))"
    if "labelSelector inp = Some sel" "sel \<noteq> []" for sel
    using assms that by (auto simp: kubectlLogs_def Let_def case_prod_beta)
  have 3: "\<exists>logsMap. snd (kubectlLogs e inp) =
              Inr \<lparr>content_text = JObj [(''selector'', JStr sel), (''namespace'', JStr ns),
                                        (''logs'', JObj logsMap)],
                   isError = False\<rparr>"
    if "labelSelector inp = Some sel" "sel \<noteq> []"
      "exec e ''kubectl'' (podsArgs (kcontext inp) ns sel) = Inr out" "trim out \<noteq> []" for sel out
    using 2[OF that(1,2)] gls_some[OF that(3,4), of inp] by simp
  show ?thesis using 1 2 3 by blast
qed

theorem label_selector_fallback_witness:
  "toLowerCase (resourceType selector_request) = ''service''
   \<and> kubectlLogs web_pods_env selector_request =
     ([(''kubectl'', podsArgs ''dev'' ''default'' ''app=web''),
       (''kubectl'', [''--context'', ''dev'', ''-n'', ''default'', ''logs'', ''web-1'']),
       (''kubectl'', [''--context'', ''dev'', ''-n'', ''default'', ''logs'', ''web-2''])],
      Inr \<lparr>content_text = JObj [(''selector'', JStr ''app=web''), (''namespace'', JStr ''default''),
         (''logs'', JObj [(''web-1'', JStr ''ready''),
                         (''web-2'', JStr ''Error: container is waiting to start'')])],
       isError = False\<rparr>)"
proof -
  have lc: "toLowerCase (resourceType selector_request) = ''service''" by code_simp
  have ns: "''default'' = (if namespace selector_request = [] then ''default'' else namespace selector_request)"
    by (simp add: selector_request_def)
  have sel: "labelSelector selector_request = Some ''app=web''" "kcontext selector_request = ''dev''"
    by (simp_all add: selector_request_def request0_def)
  have t: "toLowerCase (resourceType selector_request) \<notin> {''pod'', ''deployment'', ''job'', ''cronjob''}"
    by (simp add: lc)
  show ?thesis
    using label_selector_fallback[OF t ns, of web_pods_env] sel lc web_pods_run by simp
qed

end
